theory Spec2Isabelle
  imports Main "HOL-Library.Sublist"
begin

section \<open>Data model\<close>

text \<open>
  \<^verbatim>\<open>CreateUserParams\<close> of \<^verbatim>\<open>service/createUser.ts\<close>. It is declared before
  \<^verbatim>\<open>User\<close>, so that the plain name \<open>email\<close> is the field of a User and the
  field of the parameters is written \<open>CreateUserParams.email\<close>.
\<close>

record CreateUserParams =
  email :: string
  password :: string

text \<open>
  The type \<^verbatim>\<open>User\<close> of \<^verbatim>\<open>model/users\<close>: the three fields that
  \<^verbatim>\<open>userToTableRow\<close> and \<^verbatim>\<open>tableRowToUser\<close> read. The field \<^verbatim>\<open>id\<close> is
  written \<open>id'\<close>, since \<open>id\<close> is the identity function of HOL. TypeScript types are
  structural: an object with further properties is a \<^verbatim>\<open>User\<close> too, which is the
  scheme \<open>'a User_scheme\<close> here.
\<close>

record User =
  id' :: string
  email :: string
  passwordHash :: string

text \<open>
  A row of the table \<^verbatim>\<open>users\<close> as the store returns it: the three columns of a
  User and the two timestamps that \<^verbatim>\<open>table.timestamps(true, true)\<close> of the
  migration adds.
\<close>

record TableRow = User +
  created_at :: nat
  updated_at :: nat

section \<open>Thrown values\<close>

text \<open>
  What a JavaScript \<^verbatim>\<open>throw\<close> or a rejected promise carries: an
  \<^verbatim>\<open>Error\<close> made by \<^verbatim>\<open>new Error(message)\<close>; the error object of the storage
  driver, an \<^verbatim>\<open>Error\<close> too, with its structured fields \<^verbatim>\<open>code\<close> (the SQLSTATE)
  and \<^verbatim>\<open>constraint\<close> beside the \<^verbatim>\<open>message\<close>; or a value that is no
  \<^verbatim>\<open>Error\<close> at all.
\<close>

datatype error =
    Error string
  | DatabaseError string string string
  | NonError string

fun instanceofError :: "error \<Rightarrow> bool" where
  "instanceofError (Error m) = True"
| "instanceofError (DatabaseError code constraint m) = True"
| "instanceofError (NonError v) = False"

fun message :: "error \<Rightarrow> string" where
  "message (Error m) = m"
| "message (DatabaseError code constraint m) = m"
| "message (NonError v) = []"

text \<open>\<^verbatim>\<open>String.prototype.includes\<close> (a keyword of Isabelle, so \<open>includesString\<close>): the
  search string occurs somewhere in the string.\<close>

fun includesString :: "string \<Rightarrow> string \<Rightarrow> bool" where
  "includesString [] searchString = (searchString = [])"
| "includesString (c # cs) searchString = (prefix searchString (c # cs) \<or> includesString cs searchString)"

section \<open>The database handle\<close>

text \<open>
  The four queries that \<^verbatim>\<open>repository/users.ts\<close> sends through the handle
  \<^verbatim>\<open>db\<close>:
  \<^verbatim>\<open>db('users').where({ id }).first()\<close>,
  \<^verbatim>\<open>db('users').where({ email }).first()\<close>,
  \<^verbatim>\<open>db('users').where({ id }).update(row)\<close> and
  \<^verbatim>\<open>db('users').insert(row)\<close>.
  Each one is awaited: it takes the state \<open>'s\<close> of the store, resolves or rejects, and
  leaves a state behind (also when it rejects, and also when it only reads: a store may
  count or log its queries). The rows that come back may carry columns \<open>'m\<close> beyond the
  three of a User.
\<close>

record ('m, 's) Db =
  firstWhereId :: "string \<Rightarrow> 's \<Rightarrow> (error + 'm User_scheme option) \<times> 's"
  firstWhereEmail :: "string \<Rightarrow> 's \<Rightarrow> (error + 'm User_scheme option) \<times> 's"
  updateWhereId :: "string \<Rightarrow> User \<Rightarrow> 's \<Rightarrow> (error + unit) \<times> 's"
  insertRow :: "User \<Rightarrow> 's \<Rightarrow> (error + unit) \<times> 's"

section \<open>UserRepository\<close>

definition userToTableRow :: "'a User_scheme \<Rightarrow> User" where
  "userToTableRow register =
     \<lparr>id' = id' register, email = email register, passwordHash = passwordHash register\<rparr>"

definition tableRowToUser :: "'a User_scheme \<Rightarrow> User" where
  "tableRowToUser row =
     \<lparr>id' = id' row, email = email row, passwordHash = passwordHash row\<rparr>"

definition findByEmail ::
  "('m, 's) Db \<Rightarrow> string \<Rightarrow> 's \<Rightarrow> (error + User option) \<times> 's" where
  "findByEmail db e s =
     (case firstWhereEmail db e s of
        (Inl err, s') \<Rightarrow> (Inl err, s')
      | (Inr None, s') \<Rightarrow> (Inr None, s')
      | (Inr (Some user), s') \<Rightarrow> (Inr (Some (tableRowToUser user)), s'))"

definition findById ::
  "('m, 's) Db \<Rightarrow> string \<Rightarrow> 's \<Rightarrow> (error + User option) \<times> 's" where
  "findById db i s =
     (case firstWhereId db i s of
        (Inl err, s') \<Rightarrow> (Inl err, s')
      | (Inr None, s') \<Rightarrow> (Inr None, s')
      | (Inr (Some user), s') \<Rightarrow> (Inr (Some (tableRowToUser user)), s'))"

text \<open>The string literal that \<^verbatim>\<open>saveUser\<close> looks for in the message of a failed insert.\<close>

definition duplicateEmailMessage :: string where
  \<open>duplicateEmailMessage =
     ''insert into "users" ("email", "id", "password_hash", "phone_number", "username") values ($1, $2, $3, $4, $5) - duplicate key value violates unique constraint "users_email_unique"''\<close>

definition saveUser ::
  "('m, 's) Db \<Rightarrow> 'a User_scheme \<Rightarrow> 's \<Rightarrow> (error + unit) \<times> 's" where
  "saveUser db user s =
     (case findById db (id' user) s of
        (Inl err, s1) \<Rightarrow> (Inl err, s1)
      | (Inr (Some existingUser), s1) \<Rightarrow>
          (case updateWhereId db (id' user) (userToTableRow user) s1 of
             (Inl err, s2) \<Rightarrow> (Inl err, s2)
           | (Inr _, s2) \<Rightarrow> (Inr (), s2))
      | (Inr None, s1) \<Rightarrow>
          (case insertRow db (userToTableRow user) s1 of
             (Inl err, s2) \<Rightarrow>
               if instanceofError err \<and> includesString (message err) duplicateEmailMessage
               then (Inl (Error ''Email already exists''), s2)
               else (Inl err, s2)
           | (Inr _, s2) \<Rightarrow> (Inr (), s2)))"

section \<open>createUser\<close>

text \<open>
  \<^verbatim>\<open>randomUUID()\<close> and \<^verbatim>\<open>hashPassword\<close> (of \<^verbatim>\<open>service/passwordHash\<close>) are
  parameters: the identifier drawn in this call, and the outcome of hashing a password in
  this call, which is a hash or a rejection. The object literal evaluates
  \<^verbatim>\<open>randomUUID()\<close> first and awaits \<^verbatim>\<open>hashPassword\<close> before anything is sent to
  the store.
\<close>

definition createUser ::
  "('m, 's) Db \<Rightarrow> string \<Rightarrow> (string \<Rightarrow> error + string) \<Rightarrow> CreateUserParams \<Rightarrow> 's
     \<Rightarrow> (error + User) \<times> 's" where
  "createUser db randomUUID hashPassword params s =
     (case hashPassword (password params) of
        Inl err \<Rightarrow> (Inl err, s)
      | Inr h \<Rightarrow>
          (let createUserIntent =
                 \<lparr>id' = randomUUID, email = CreateUserParams.email params, passwordHash = h\<rparr>
           in case saveUser db createUserIntent s of
                (Inl err, s1) \<Rightarrow> (Inl err, s1)
              | (Inr _, s1) \<Rightarrow>
                  (case findById db (id' createUserIntent) s1 of
                     (Inl err, s2) \<Rightarrow> (Inl err, s2)
                   | (Inr None, s2) \<Rightarrow> (Inl (Error ''Failed to create user''), s2)
                   | (Inr (Some createdUser), s2) \<Rightarrow> (Inr createdUser, s2))))"

section \<open>The table \<^verbatim>\<open>users\<close>\<close>

text \<open>
  Modelled from the spec: the module \<^verbatim>\<open>database/db\<close>, which exports the handle
  \<^verbatim>\<open>db\<close>, and the relational store behind it are missing from the sources. The table is
  the one of section 6 of the specification, with the columns that the migrations
  declare: \<^verbatim>\<open>table.uuid('id', { primaryKey: true })\<close>,
  \<^verbatim>\<open>table.string('email').notNullable().unique()\<close>, a string column for the password
  hash, and \<^verbatim>\<open>table.timestamps(true, true)\<close>. A statement is rejected as a whole:
  when a string it is given contains the character with code 0 (SQLSTATE 22021), when a
  value given for \<^verbatim>\<open>id\<close> does not read as a uuid (22P02), when a value is too long
  for its string column (22001), and when it would leave two rows with one id or one
  email (23505, with the name of the constraint). The values of a statement are read in
  the order in which the statement names them, before it runs. The message of a rejection
  is the text of the statement, a dash, and the complaint of the store. The text of a
  statement depends on how the handle is configured, so it is a parameter. The store
  keeps the list of the queries it was sent.
\<close>

subsection \<open>The column type uuid\<close>

text \<open>
  Reading a uuid: an optional opening brace, sixteen bytes of two hexadecimal digits
  each, in either case, with an optional hyphen after every second byte, and the closing
  brace if there was an opening one. The store prints a uuid in lower case, in the groups
  8-4-4-4-12; two spellings that read as the same sixteen bytes are the same id.
\<close>

definition isxdigit :: "char \<Rightarrow> bool" where
  "isxdigit c = (c \<in> set ''0123456789abcdefABCDEF'')"

definition tolower :: "char \<Rightarrow> char" where
  "tolower c =
     (if c = CHR ''A'' then CHR ''a'' else if c = CHR ''B'' then CHR ''b''
      else if c = CHR ''C'' then CHR ''c'' else if c = CHR ''D'' then CHR ''d''
      else if c = CHR ''E'' then CHR ''e'' else if c = CHR ''F'' then CHR ''f'' else c)"

text \<open>
  \<open>uuid_bytes n src\<close> reads the last \<open>n\<close> of the sixteen bytes from \<open>src\<close>, and gives
  their digits in lower case and what is left of \<open>src\<close>.
\<close>

fun uuid_bytes :: "nat \<Rightarrow> string \<Rightarrow> (string \<times> string) option" where
  "uuid_bytes 0 src = Some ([], src)"
| "uuid_bytes (Suc n) (a # b # src) =
     (if isxdigit a \<and> isxdigit b
      then (let i = 15 - n;
                src' = (case src of
                          [] \<Rightarrow> src
                        | c # rest \<Rightarrow> if c = CHR ''-'' \<and> i mod 2 = 1 \<and> i < 15 then rest else src)
            in case uuid_bytes n src' of
                 None \<Rightarrow> None
               | Some (digits, left) \<Rightarrow> Some (tolower a # tolower b # digits, left))
      else None)"
| "uuid_bytes (Suc n) src = None"

definition uuid_out :: "string \<Rightarrow> string" where
  "uuid_out digits =
     take 8 digits @ ''-'' @ take 4 (drop 8 digits) @ ''-'' @ take 4 (drop 12 digits) @ ''-''
     @ take 4 (drop 16 digits) @ ''-'' @ drop 20 digits"

definition uuid_in :: "string \<Rightarrow> string option" where
  "uuid_in source =
     (let braces = (case source of [] \<Rightarrow> False | c # rest \<Rightarrow> c = CHR ''{'');
          src = (if braces then tl source else source)
      in case uuid_bytes 16 src of
           None \<Rightarrow> None
         | Some (digits, left) \<Rightarrow>
             if left = (if braces then ''}'' else []) then Some (uuid_out digits) else None)"

subsection \<open>The string columns\<close>

text \<open>
  A string that reaches the store must not contain the character with code 0. A string
  column made by \<^verbatim>\<open>table.string\<close> holds at most 255 characters: a longer value is
  rejected, unless all that exceeds the 255 characters is spaces, which the store cuts
  off. A \<open>char\<close> stands for one character here.
\<close>

definition text_ok :: "string \<Rightarrow> bool" where
  "text_ok v = (CHR 0x00 \<notin> set v)"

definition varchar255 :: "string \<Rightarrow> string option" where
  "varchar255 v =
     (if length v \<le> 255 then Some v
      else if list_all (\<lambda>c. c = CHR '' '') (drop 255 v) then Some (take 255 v)
      else None)"

text \<open>The email and the password hash of a User as the columns keep them.\<close>

definition kept :: "User \<Rightarrow> User option" where
  "kept u =
     (case varchar255 (email u) of
        None \<Rightarrow> None
      | Some e \<Rightarrow>
          (case varchar255 (passwordHash u) of
             None \<Rightarrow> None
           | Some h \<Rightarrow> Some (u\<lparr>email := e, passwordHash := h\<rparr>)))"

text \<open>A string that the store takes and keeps as it is, and a User whose strings are so.\<close>

definition storable :: "string \<Rightarrow> bool" where
  "storable v = (length v \<le> 255 \<and> text_ok v)"

definition fits :: "'a User_scheme \<Rightarrow> bool" where
  "fits u = (storable (email u) \<and> storable (passwordHash u))"

subsection \<open>The store\<close>

datatype Query =
    SelectWhereId string
  | SelectWhereEmail string
  | UpdateWhereId string User
  | Insert User

record Store =
  users :: "TableRow list"
  now :: nat
  queries :: "Query list"

record Sql =
  selectSql :: string
  selectEmailSql :: string
  insertSql :: string
  updateSql :: string

definition sent :: "Query \<Rightarrow> Store \<Rightarrow> Store" where
  "sent q s = s\<lparr>now := Suc (now s), queries := queries s @ [q]\<rparr>"

definition violated :: "TableRow list \<Rightarrow> string option" where
  "violated rows =
     (if \<not> distinct (map id' rows) then Some ''users_pkey''
      else if \<not> distinct (map email rows) then Some ''users_email_unique''
      else None)"

definition uniqueViolation :: "string \<Rightarrow> string \<Rightarrow> error" where
  \<open>uniqueViolation sql c =
     DatabaseError ''23505'' c
       (sql @ '' - duplicate key value violates unique constraint "'' @ c @ ''"'')\<close>

definition invalidByte :: "string \<Rightarrow> error" where
  \<open>invalidByte sql =
     DatabaseError ''22021'' [] (sql @ '' - invalid byte sequence for encoding "UTF8": 0x00'')\<close>

definition invalidUuid :: "string \<Rightarrow> string \<Rightarrow> error" where
  \<open>invalidUuid sql v =
     DatabaseError ''22P02'' []
       (sql @ '' - invalid input syntax for type uuid: "'' @ v @ ''"'')\<close>

definition tooLong :: "string \<Rightarrow> error" where
  \<open>tooLong sql =
     DatabaseError ''22001'' [] (sql @ '' - value too long for type character varying(255)'')\<close>

definition pgFirstWhereId ::
  "Sql \<Rightarrow> string \<Rightarrow> Store \<Rightarrow> (error + TableRow option) \<times> Store" where
  "pgFirstWhereId sql i s =
     (if \<not> text_ok i then (Inl (invalidByte (selectSql sql)), sent (SelectWhereId i) s)
      else case uuid_in i of
        None \<Rightarrow> (Inl (invalidUuid (selectSql sql) i), sent (SelectWhereId i) s)
      | Some k \<Rightarrow> (Inr (find (\<lambda>r. id' r = k) (users s)), sent (SelectWhereId i) s))"

definition pgFirstWhereEmail ::
  "Sql \<Rightarrow> string \<Rightarrow> Store \<Rightarrow> (error + TableRow option) \<times> Store" where
  "pgFirstWhereEmail sql e s =
     (if \<not> text_ok e then (Inl (invalidByte (selectEmailSql sql)), sent (SelectWhereEmail e) s)
      else (Inr (find (\<lambda>r. email r = e) (users s)), sent (SelectWhereEmail e) s))"

text \<open>
  The update sets the three columns it is given, in the rows that \<^verbatim>\<open>where\<close> selects:
  \<open>k\<close> is the uuid that the key reads as, \<open>k'\<close> the uuid that the new id reads as, and
  \<open>v\<close> carries the two strings as the columns keep them.
\<close>

definition overwrite :: "string \<Rightarrow> string \<Rightarrow> User \<Rightarrow> TableRow \<Rightarrow> TableRow" where
  "overwrite k k' v r =
     (if id' r = k then r\<lparr>id' := k', email := email v, passwordHash := passwordHash v\<rparr>
      else r)"

text \<open>
  \<^verbatim>\<open>update "users" set "id" = $1, "email" = $2, "passwordHash" = $3 where "id" = $4\<close>
\<close>

definition pgUpdateWhereId :: "Sql \<Rightarrow> string \<Rightarrow> User \<Rightarrow> Store \<Rightarrow> (error + unit) \<times> Store" where
  "pgUpdateWhereId sql i u s =
     (if \<not> text_ok (id' u) then (Inl (invalidByte (updateSql sql)), sent (UpdateWhereId i u) s)
      else case uuid_in (id' u) of
        None \<Rightarrow> (Inl (invalidUuid (updateSql sql) (id' u)), sent (UpdateWhereId i u) s)
      | Some k' \<Rightarrow>
          if \<not> text_ok (email u) \<or> \<not> text_ok (passwordHash u) \<or> \<not> text_ok i
          then (Inl (invalidByte (updateSql sql)), sent (UpdateWhereId i u) s)
          else (case uuid_in i of
             None \<Rightarrow> (Inl (invalidUuid (updateSql sql) i), sent (UpdateWhereId i u) s)
           | Some k \<Rightarrow>
               (case kept u of
                  None \<Rightarrow> (Inl (tooLong (updateSql sql)), sent (UpdateWhereId i u) s)
                | Some v \<Rightarrow>
                    (let rows = map (overwrite k k' v) (users s)
                     in case violated rows of
                          Some c \<Rightarrow>
                            (Inl (uniqueViolation (updateSql sql) c), sent (UpdateWhereId i u) s)
                        | None \<Rightarrow> (Inr (), sent (UpdateWhereId i u) (s\<lparr>users := rows\<rparr>))))))"

text \<open>\<^verbatim>\<open>insert into "users" ("email", "id", "passwordHash") values ($1, $2, $3)\<close>\<close>

definition pgInsert :: "Sql \<Rightarrow> User \<Rightarrow> Store \<Rightarrow> (error + unit) \<times> Store" where
  "pgInsert sql u s =
     (if \<not> text_ok (email u) \<or> \<not> text_ok (id' u)
      then (Inl (invalidByte (insertSql sql)), sent (Insert u) s)
      else case uuid_in (id' u) of
        None \<Rightarrow> (Inl (invalidUuid (insertSql sql) (id' u)), sent (Insert u) s)
      | Some k \<Rightarrow>
          if \<not> text_ok (passwordHash u)
          then (Inl (invalidByte (insertSql sql)), sent (Insert u) s)
          else (case kept u of
             None \<Rightarrow> (Inl (tooLong (insertSql sql)), sent (Insert u) s)
           | Some v \<Rightarrow>
               (let rows = users s @
                           [\<lparr>id' = k, email = email v, passwordHash = passwordHash v,
                             created_at = now s, updated_at = now s\<rparr>]
                in case violated rows of
                     Some c \<Rightarrow> (Inl (uniqueViolation (insertSql sql) c), sent (Insert u) s)
                   | None \<Rightarrow> (Inr (), sent (Insert u) (s\<lparr>users := rows\<rparr>)))))"

text \<open>
  Modelled from the spec: the handle \<^verbatim>\<open>db\<close> that \<^verbatim>\<open>repository/users.ts\<close>
  imports from \<^verbatim>\<open>database/db\<close>, as the four queries above on the table of
  section 6 of the specification.
\<close>

definition pg :: "Sql \<Rightarrow> (unit TableRow_ext, Store) Db" where
  "pg sql =
     \<lparr>firstWhereId = pgFirstWhereId sql, firstWhereEmail = pgFirstWhereEmail sql,
      updateWhereId = pgUpdateWhereId sql, insertRow = pgInsert sql\<rparr>"

text \<open>
  The table is as the store keeps it: no two rows share an id or an email, every id is a
  uuid as the store prints it, and every string is one that the store takes and keeps.
\<close>

definition typed :: "TableRow \<Rightarrow> bool" where
  "typed r = (uuid_in (id' r) = Some (id' r) \<and> fits r)"

definition consistent :: "Store \<Rightarrow> bool" where
  "consistent s =
     (distinct (map id' (users s)) \<and> distinct (map email (users s)) \<and> list_all typed (users s))"

section \<open>Example stores\<close>

text \<open>
  The statements as the query builder renders them for the queries of
  \<^verbatim>\<open>repository/users.ts\<close> on the migrated table: the insert names the three columns
  that \<^verbatim>\<open>userToTableRow\<close> builds.
\<close>

definition rendered :: Sql where
  \<open>rendered =
     \<lparr>selectSql = ''select * from "users" where "id" = $1 limit $2'',
      selectEmailSql = ''select * from "users" where "email" = $1 limit $2'',
      insertSql = ''insert into "users" ("email", "id", "passwordHash") values ($1, $2, $3)'',
      updateSql = ''update "users" set "id" = $1, "email" = $2, "passwordHash" = $3 where "id" = $4''\<rparr>\<close>

definition alice :: TableRow where
  "alice = \<lparr>id' = ''11111111-1111-4111-8111-111111111111'', email = ''a@x.com'',
             passwordHash = ''$argon2id$A'', created_at = 1, updated_at = 1\<rparr>"

definition bob :: TableRow where
  "bob = \<lparr>id' = ''22222222-2222-4222-8222-222222222222'', email = ''b@x.com'',
           passwordHash = ''$argon2id$B'', created_at = 4, updated_at = 4\<rparr>"

definition emptyStore :: Store where
  "emptyStore = \<lparr>users = [], now = 0, queries = []\<rparr>"

definition twoUsers :: Store where
  "twoUsers = \<lparr>users = [alice, bob], now = 7, queries = []\<rparr>"

text \<open>A hasher that succeeds, and one that rejects.\<close>

definition reversingHasher :: "string \<Rightarrow> error + string" where
  "reversingHasher p = Inr (''$argon2id$'' @ rev p)"

definition exhaustedHasher :: "string \<Rightarrow> error + string" where
  "exhaustedHasher p = Inl (Error ''memory allocation failed'')"

text \<open>
  A handle that acknowledges an insert without keeping the row, and one whose store
  rewrites the email of a row it returns: the two situations the read-back of
  \<^verbatim>\<open>createUser\<close> is there for.
\<close>

definition forgetful :: "(unit TableRow_ext, Store) Db" where
  "forgetful = (pg rendered)\<lparr>insertRow := \<lambda>u s. (Inr (), sent (Insert u) s)\<rparr>"

definition normalising :: "(unit TableRow_ext, Store) Db" where
  "normalising =
     (pg rendered)\<lparr>firstWhereId := \<lambda>i s.
        (Inr (map_option (\<lambda>r. r\<lparr>email := filter (\<lambda>c. c \<noteq> CHR '' '') (email r)\<rparr>)
               (find (\<lambda>r. id' r = i) (users s))),
         sent (SelectWhereId i) s)\<rparr>"

section \<open>Facts about the column types\<close>

lemma uuid_bytes_chars:
  "uuid_bytes n src = Some (digits, left) \<Longrightarrow> c \<in> set src \<Longrightarrow>
   c \<in> set left \<or> isxdigit c \<or> c = CHR ''-''"
proof (induction n src arbitrary: digits left rule: uuid_bytes.induct)
  case (2 n a b src)
  from "2.prems"(1) have x: "isxdigit a" "isxdigit b"
    by (simp_all split: if_splits)
  let ?i = "15 - n"
  let ?src' = "(case src of
                  [] \<Rightarrow> src
                | c # rest \<Rightarrow> if c = CHR ''-'' \<and> ?i mod 2 = 1 \<and> ?i < 15 then rest else src)"
  from "2.prems"(1) x obtain ds where r: "uuid_bytes n ?src' = Some (ds, left)"
    by (auto simp add: Let_def split: option.splits)
  have s: "c \<in> set src \<Longrightarrow> c \<in> set ?src' \<or> c = CHR ''-''"
    by (cases src) (auto split: if_splits)
  show ?case
  proof (cases "c = a \<or> c = b")
    case True
    with x show ?thesis by auto
  next
    case False
    with "2.prems"(2) have "c \<in> set src" by simp
    with s have "c \<in> set ?src' \<or> c = CHR ''-''" by simp
    then show ?thesis
    proof
      assume "c \<in> set ?src'"
      from "2.IH" [OF _ refl refl r this] x show ?thesis by simp
    next
      assume "c = CHR ''-''"
      then show ?thesis by simp
    qed
  qed
qed simp_all

lemma uuid_in_text_ok:
  assumes "uuid_in i = Some k"
  shows "text_ok i"
proof -
  have z: "\<not> isxdigit (CHR 0x00)"
    by (simp add: isxdigit_def)
  show ?thesis
  proof (cases "case i of [] \<Rightarrow> False | c # rest \<Rightarrow> c = CHR ''{''")
    case True
    then obtain rest where i: "i = CHR ''{'' # rest"
      by (cases i) auto
    with assms obtain ds where "uuid_bytes 16 rest = Some (ds, ''}'')"
      by (auto simp add: uuid_in_def Let_def split: option.splits if_splits)
    from uuid_bytes_chars [OF this, of "CHR 0x00"] z have "CHR 0x00 \<notin> set rest"
      by auto
    with i show ?thesis by (simp add: text_ok_def)
  next
    case False
    with assms obtain ds where "uuid_bytes 16 i = Some (ds, [])"
      by (auto simp add: uuid_in_def Let_def split: option.splits if_splits)
    from uuid_bytes_chars [OF this, of "CHR 0x00"] z show ?thesis
      by (auto simp add: text_ok_def)
  qed
qed

lemma varchar255_storable: "storable v \<Longrightarrow> varchar255 v = Some v"
  by (simp add: storable_def varchar255_def)

lemma kept_fits: "fits u \<Longrightarrow> kept u = Some u"
  by (simp add: kept_def fits_def varchar255_storable)

lemma kept_fields:
  "kept u = Some v \<Longrightarrow>
   id' v = id' u \<and> varchar255 (email u) = Some (email v)
   \<and> varchar255 (passwordHash u) = Some (passwordHash v)"
  by (auto simp add: kept_def split: option.splits)

section \<open>Facts about the table\<close>

lemma users_sent: "users (sent q s) = users s"
  by (simp add: sent_def)

lemma queries_sent: "queries (sent q s) = queries s @ [q]"
  by (simp add: sent_def)

lemma now_sent: "now (sent q s) = Suc (now s)"
  by (simp add: sent_def)

lemma pg_sel:
  "firstWhereId (pg sql) = pgFirstWhereId sql"
  "firstWhereEmail (pg sql) = pgFirstWhereEmail sql"
  "updateWhereId (pg sql) = pgUpdateWhereId sql"
  "insertRow (pg sql) = pgInsert sql"
  by (simp_all add: pg_def)

lemma findById_pg:
  "findById (pg sql) i s =
     (case uuid_in i of
        None \<Rightarrow> Inl (if text_ok i then invalidUuid (selectSql sql) i
                       else invalidByte (selectSql sql))
      | Some k \<Rightarrow> Inr (map_option tableRowToUser (find (\<lambda>r. id' r = k) (users s))),
      sent (SelectWhereId i) s)"
  by (auto simp add: findById_def pg_sel pgFirstWhereId_def dest: uuid_in_text_ok
      split: option.split)

lemma findByEmail_pg:
  "findByEmail (pg sql) e s =
     (if text_ok e
      then Inr (map_option tableRowToUser (find (\<lambda>r. email r = e) (users s)))
      else Inl (invalidByte (selectEmailSql sql)),
      sent (SelectWhereEmail e) s)"
  by (simp add: findByEmail_def pg_sel pgFirstWhereEmail_def split: option.split)

lemma find_distinct_key:
  "distinct (map f xs) \<Longrightarrow> r \<in> set xs \<Longrightarrow> find (\<lambda>x. f x = f r) xs = Some r"
  by (induction xs) auto

lemma find_absent: "(\<forall>r\<in>set xs. \<not> P r) \<Longrightarrow> find P xs = None"
  by (simp add: find_None_iff)

lemma find_key_absent: "k \<notin> set (map f xs) \<Longrightarrow> find (\<lambda>x. f x = k) xs = None"
  by (intro find_absent) force

lemma consistent_typed: "consistent s \<Longrightarrow> r \<in> set (users s) \<Longrightarrow> typed r"
  by (simp add: consistent_def list_all_iff)

lemma uuid_examples:
  "uuid_in ''11111111-1111-4111-8111-111111111111'' = Some ''11111111-1111-4111-8111-111111111111''"
  "uuid_in ''22222222-2222-4222-8222-222222222222'' = Some ''22222222-2222-4222-8222-222222222222''"
  "uuid_in ''33333333-3333-4333-8333-333333333333'' = Some ''33333333-3333-4333-8333-333333333333''"
  "uuid_in ''{22222222-2222-4222-8222-222222222222}'' = Some ''22222222-2222-4222-8222-222222222222''"
  "uuid_in ''not-a-uuid'' = None"
  by code_simp+

lemmas run_defs =
  createUser_def saveUser_def findById_def findByEmail_def pg_def pgFirstWhereId_def
  pgFirstWhereEmail_def pgUpdateWhereId_def pgInsert_def overwrite_def violated_def
  uniqueViolation_def invalidUuid_def invalidByte_def tooLong_def fits_def storable_def
  text_ok_def kept_def varchar255_def sent_def userToTableRow_def
  tableRowToUser_def duplicateEmailMessage_def uuid_examples Let_def

lemmas example_defs =
  rendered_def alice_def bob_def emptyStore_def twoUsers_def
  reversingHasher_def exhaustedHasher_def forgetful_def normalising_def

lemma consistent_twoUsers: "consistent twoUsers"
  by (simp add: consistent_def typed_def fits_def storable_def text_ok_def twoUsers_def
      alice_def bob_def uuid_examples)

section \<open>Facts about saving\<close>

lemma projections [simp]:
  "id' (userToTableRow r) = id' r" "email (userToTableRow r) = email r"
  "passwordHash (userToTableRow r) = passwordHash r"
  "id' (tableRowToUser r) = id' r" "email (tableRowToUser r) = email r"
  "passwordHash (tableRowToUser r) = passwordHash r"
  by (simp_all add: userToTableRow_def tableRowToUser_def)

lemma fits_userToTableRow [simp]: "fits (userToTableRow u) = fits u"
  by (simp add: fits_def)

lemma fits_text_ok: "fits u \<Longrightarrow> text_ok (email u) \<and> text_ok (passwordHash u)"
  by (simp add: fits_def storable_def)

lemma userToTableRow_truncate: "userToTableRow r = User.truncate r"
  by (simp add: userToTableRow_def User.truncate_def)

lemma tableRowToUser_truncate: "tableRowToUser r = User.truncate r"
  by (simp add: tableRowToUser_def User.truncate_def)

lemma violated_None: "violated rows = None \<longleftrightarrow> distinct (map id' rows) \<and> distinct (map email rows)"
  by (simp add: violated_def)

lemma overwrite_ids: "map id' (map (overwrite k k u) rows) = map id' rows"
  by (induction rows) (simp_all add: overwrite_def)

lemma email_overwrite: "email (overwrite k k' u r) = (if id' r = k then email u else email r)"
  by (simp add: overwrite_def)

lemma overwrite_emails_distinct:
  assumes ids: "distinct (map id' rows)" and emails: "distinct (map email rows)"
    and free: "\<forall>r\<in>set rows. email r = email u \<longrightarrow> id' r = k"
  shows "distinct (map email (map (overwrite k k' u) rows))"
proof -
  from ids have d: "distinct rows" and ii: "inj_on id' (set rows)"
    by (simp_all add: distinct_map)
  from emails have ie: "inj_on email (set rows)"
    by (simp add: distinct_map)
  have "inj_on (\<lambda>r. email (overwrite k k' u r)) (set rows)"
  proof (rule inj_onI)
    fix x y
    assume x: "x \<in> set rows" and y: "y \<in> set rows"
      and eq: "email (overwrite k k' u x) = email (overwrite k k' u y)"
    show "x = y"
    proof (cases "id' x = k")
      case True
      show ?thesis
      proof (cases "id' y = k")
        case True
        with \<open>id' x = k\<close> ii x y show ?thesis by (simp add: inj_on_def)
      next
        case False
        with \<open>id' x = k\<close> eq have "email y = email u" by (simp add: email_overwrite)
        with free y False show ?thesis by blast
      qed
    next
      case False
      show ?thesis
      proof (cases "id' y = k")
        case True
        with False eq have "email x = email u" by (simp add: email_overwrite)
        with free x False show ?thesis by blast
      next
        case ny: False
        with False eq have "email x = email y" by (simp add: email_overwrite)
        with ie x y show ?thesis by (simp add: inj_on_def)
      qed
    qed
  qed
  with d show ?thesis by (simp add: distinct_map comp_def)
qed

lemma overwrite_emails_clash:
  assumes "r1 \<in> set rows" "id' r1 = k" "r2 \<in> set rows" "id' r2 \<noteq> k" "email r2 = email u"
  shows "\<not> distinct (map email (map (overwrite k k' u) rows))"
proof
  assume "distinct (map email (map (overwrite k k' u) rows))"
  then have "inj_on (\<lambda>r. email (overwrite k k' u r)) (set rows)"
    by (simp add: distinct_map comp_def)
  moreover have "email (overwrite k k' u r1) = email (overwrite k k' u r2)"
    using assms by (simp add: overwrite_def)
  ultimately have "r1 = r2" using assms(1,3) by (auto dest: inj_onD)
  with assms show False by simp
qed

lemma violated_overwrite:
  assumes "distinct (map id' rows)"
  shows "violated (map (overwrite k k u) rows) =
    (if distinct (map email (map (overwrite k k u) rows)) then None
     else Some ''users_email_unique'')"
proof -
  from assms have "distinct (map id' (map (overwrite k k u) rows))"
    by (simp only: overwrite_ids)
  then show ?thesis
    unfolding violated_def by (simp del: map_map)
qed

lemma overwrite_in_place:
  "map (overwrite k k u) rows =
   map (\<lambda>r. if id' r = k then r\<lparr>email := email u, passwordHash := passwordHash u\<rparr> else r) rows"
  by (induction rows) (auto simp add: overwrite_def)

lemma find_id_present:
  "k \<in> set (map id' rows) \<Longrightarrow> \<exists>r. find (\<lambda>r. id' r = k) rows = Some r \<and> r \<in> set rows \<and> id' r = k"
  by (induction rows) auto

lemma filter_distinct_key:
  "distinct (map f xs) \<Longrightarrow> r \<in> set xs \<Longrightarrow> filter (\<lambda>x. f x = f r) xs = [r]"
proof (induction xs)
  case Nil
  then show ?case by simp
next
  case (Cons x xs)
  show ?case
  proof (cases "x = r")
    case True
    from Cons.prems(1) have "\<forall>y\<in>set xs. f y \<noteq> f x" by (simp add: image_iff) metis
    then have "filter (\<lambda>y. f y = f x) xs = []" by (simp add: filter_empty_conv)
    with True show ?thesis by simp
  next
    case False
    with Cons.prems have r: "r \<in> set xs" and "f x \<notin> f ` set xs" by simp_all
    then have "f x \<noteq> f r" by blast
    with Cons.IH Cons.prems(1) r show ?thesis by simp
  qed
qed

lemma saveUser_pg_invalid:
  assumes "uuid_in (id' u) = None"
  shows "saveUser (pg sql) u s =
           (Inl (if text_ok (id' u) then invalidUuid (selectSql sql) (id' u)
                 else invalidByte (selectSql sql)),
            sent (SelectWhereId (id' u)) s)"
  using assms by (simp add: saveUser_def findById_pg)

lemma saveUser_pg_present:
  assumes "uuid_in (id' u) = Some k" and "k \<in> set (map id' (users s))"
  shows "saveUser (pg sql) u s =
           pgUpdateWhereId sql (id' u) (userToTableRow u) (sent (SelectWhereId (id' u)) s)"
proof -
  from find_id_present [OF assms(2)] obtain r where "find (\<lambda>r. id' r = k) (users s) = Some r"
    by blast
  with assms(1) show ?thesis
    by (simp add: saveUser_def findById_pg pg_sel split: prod.split sum.split)
qed

lemma saveUser_pg_absent:
  assumes "uuid_in (id' u) = Some k" and "k \<notin> set (map id' (users s))"
  shows "saveUser (pg sql) u s =
           (case pgInsert sql (userToTableRow u) (sent (SelectWhereId (id' u)) s) of
              (Inl err, s2) \<Rightarrow>
                if instanceofError err \<and> includesString (message err) duplicateEmailMessage
                then (Inl (Error ''Email already exists''), s2) else (Inl err, s2)
            | (Inr x, s2) \<Rightarrow> (Inr (), s2))"
proof -
  from assms(2) have "find (\<lambda>r. id' r = k) (users s) = None"
    by (rule find_key_absent)
  with assms(1) show ?thesis
    by (simp add: saveUser_def findById_pg pg_sel split: prod.split sum.split)
qed

section \<open>Saving to the table\<close>

text \<open>How an update and an insert end: rejected by the store, the table as it was, or done.\<close>

lemma pgUpdateWhereId_cases:
  assumes "pgUpdateWhereId sql i u s = (res, s')"
  shows "(\<exists>c n m. res = Inl (DatabaseError c n m) \<and> users s' = users s)
    \<or> (res = Inr () \<and> (\<exists>k k' v. uuid_in i = Some k \<and> uuid_in (id' u) = Some k' \<and> kept u = Some v
          \<and> violated (map (overwrite k k' v) (users s)) = None
          \<and> users s' = map (overwrite k k' v) (users s)))"
  using assms
  by (auto simp add: pgUpdateWhereId_def users_sent Let_def invalidByte_def invalidUuid_def
      tooLong_def uniqueViolation_def split: option.splits if_splits)

lemma pgInsert_cases:
  assumes "pgInsert sql u s = (res, s')"
  shows "(\<exists>c n m. res = Inl (DatabaseError c n m) \<and> users s' = users s)
    \<or> (res = Inr () \<and> (\<exists>k v. uuid_in (id' u) = Some k \<and> kept u = Some v
          \<and> violated (users s @ [\<lparr>id' = k, email = email v, passwordHash = passwordHash v,
                                   created_at = now s, updated_at = now s\<rparr>]) = None
          \<and> users s' = users s @ [\<lparr>id' = k, email = email v, passwordHash = passwordHash v,
                                   created_at = now s, updated_at = now s\<rparr>]))"
  using assms
  by (auto simp add: pgInsert_def users_sent Let_def invalidByte_def invalidUuid_def
      tooLong_def uniqueViolation_def split: option.splits if_splits)

lemma pgUpdateWhereId_fits:
  assumes "uuid_in (id' u) = Some k" and "fits u"
  shows "pgUpdateWhereId sql (id' u) u s =
    (case violated (map (overwrite k k u) (users s)) of
       Some c \<Rightarrow> (Inl (uniqueViolation (updateSql sql) c), sent (UpdateWhereId (id' u) u) s)
     | None \<Rightarrow> (Inr (), sent (UpdateWhereId (id' u) u)
                         (s\<lparr>users := map (overwrite k k u) (users s)\<rparr>)))"
  using assms uuid_in_text_ok [OF assms(1)] fits_text_ok [OF assms(2)]
  by (simp add: pgUpdateWhereId_def kept_fits Let_def)

lemma pgInsert_fits:
  assumes "uuid_in (id' u) = Some k" and "fits u"
  shows "pgInsert sql u s =
    (case violated (users s @ [\<lparr>id' = k, email = email u, passwordHash = passwordHash u,
                                created_at = now s, updated_at = now s\<rparr>]) of
       Some c \<Rightarrow> (Inl (uniqueViolation (insertSql sql) c), sent (Insert u) s)
     | None \<Rightarrow> (Inr (), sent (Insert u)
         (s\<lparr>users := users s @ [\<lparr>id' = k, email = email u, passwordHash = passwordHash u,
                                  created_at = now s, updated_at = now s\<rparr>]\<rparr>)))"
  using assms uuid_in_text_ok [OF assms(1)] fits_text_ok [OF assms(2)]
  by (simp add: pgInsert_def kept_fits Let_def)

lemma saveUser_pg_update_ok:
  assumes "distinct (map id' (users s))" and "distinct (map email (users s))"
    and "uuid_in (id' u) = Some k" and "k \<in> set (map id' (users s))"
    and "\<forall>r\<in>set (users s). email r = email u \<longrightarrow> id' r = k" and "fits u"
  shows "saveUser (pg sql) u s =
    (Inr (), sent (UpdateWhereId (id' u) (userToTableRow u))
       ((sent (SelectWhereId (id' u)) s)
          \<lparr>users := map (overwrite k k (userToTableRow u)) (users s)\<rparr>))"
proof -
  have "distinct (map email (map (overwrite k k (userToTableRow u)) (users s)))"
    using assms(1,2,5) by (intro overwrite_emails_distinct) simp_all
  with assms(1) have "violated (map (overwrite k k (userToTableRow u)) (users s)) = None"
    by (subst violated_overwrite) simp_all
  moreover have "pgUpdateWhereId sql (id' (userToTableRow u)) (userToTableRow u)
      (sent (SelectWhereId (id' u)) s) =
    (case violated (map (overwrite k k (userToTableRow u)) (users (sent (SelectWhereId (id' u)) s))) of
       Some c \<Rightarrow> (Inl (uniqueViolation (updateSql sql) c),
                  sent (UpdateWhereId (id' (userToTableRow u)) (userToTableRow u))
                    (sent (SelectWhereId (id' u)) s))
     | None \<Rightarrow> (Inr (), sent (UpdateWhereId (id' (userToTableRow u)) (userToTableRow u))
         ((sent (SelectWhereId (id' u)) s)
            \<lparr>users := map (overwrite k k (userToTableRow u)) (users (sent (SelectWhereId (id' u)) s))\<rparr>)))"
    using assms(3,6) by (intro pgUpdateWhereId_fits) simp_all
  ultimately show ?thesis
    by (simp add: saveUser_pg_present [OF assms(3,4)] users_sent)
qed

lemma saveUser_pg_update_clash:
  assumes "distinct (map id' (users s))" and "uuid_in (id' u) = Some k"
    and "r1 \<in> set (users s)" and "id' r1 = k"
    and "r2 \<in> set (users s)" and "id' r2 \<noteq> k" and "email r2 = email u" and "fits u"
  shows "saveUser (pg sql) u s =
    (Inl (uniqueViolation (updateSql sql) ''users_email_unique''),
     sent (UpdateWhereId (id' u) (userToTableRow u)) (sent (SelectWhereId (id' u)) s))"
proof -
  from assms(3,4) have present: "k \<in> set (map id' (users s))"
    by force
  have "\<not> distinct (map email (map (overwrite k k (userToTableRow u)) (users s)))"
    using assms(3-7) by (intro overwrite_emails_clash [of r1 _ _ r2]) simp_all
  with assms(1) have "violated (map (overwrite k k (userToTableRow u)) (users s))
      = Some ''users_email_unique''"
    by (subst violated_overwrite) simp_all
  moreover have "pgUpdateWhereId sql (id' (userToTableRow u)) (userToTableRow u)
      (sent (SelectWhereId (id' u)) s) =
    (case violated (map (overwrite k k (userToTableRow u)) (users (sent (SelectWhereId (id' u)) s))) of
       Some c \<Rightarrow> (Inl (uniqueViolation (updateSql sql) c),
                  sent (UpdateWhereId (id' (userToTableRow u)) (userToTableRow u))
                    (sent (SelectWhereId (id' u)) s))
     | None \<Rightarrow> (Inr (), sent (UpdateWhereId (id' (userToTableRow u)) (userToTableRow u))
         ((sent (SelectWhereId (id' u)) s)
            \<lparr>users := map (overwrite k k (userToTableRow u)) (users (sent (SelectWhereId (id' u)) s))\<rparr>)))"
    using assms(2,8) by (intro pgUpdateWhereId_fits) simp_all
  ultimately show ?thesis
    by (simp add: saveUser_pg_present [OF assms(2) present] users_sent)
qed

lemma saveUser_pg_insert_ok:
  assumes "distinct (map id' (users s))" and "distinct (map email (users s))"
    and "uuid_in (id' u) = Some k" and "k \<notin> set (map id' (users s))"
    and "email u \<notin> set (map email (users s))" and "fits u"
  shows "saveUser (pg sql) u s =
    (Inr (), sent (Insert (userToTableRow u))
       ((sent (SelectWhereId (id' u)) s)
          \<lparr>users := users s @
             [\<lparr>id' = k, email = email u, passwordHash = passwordHash u,
               created_at = Suc (now s), updated_at = Suc (now s)\<rparr>]\<rparr>))"
proof -
  have "pgInsert sql (userToTableRow u) (sent (SelectWhereId (id' u)) s) =
    (case violated (users (sent (SelectWhereId (id' u)) s) @
        [\<lparr>id' = k, email = email (userToTableRow u), passwordHash = passwordHash (userToTableRow u),
          created_at = now (sent (SelectWhereId (id' u)) s),
          updated_at = now (sent (SelectWhereId (id' u)) s)\<rparr>]) of
       Some c \<Rightarrow> (Inl (uniqueViolation (insertSql sql) c),
                  sent (Insert (userToTableRow u)) (sent (SelectWhereId (id' u)) s))
     | None \<Rightarrow> (Inr (), sent (Insert (userToTableRow u))
         ((sent (SelectWhereId (id' u)) s)\<lparr>users := users (sent (SelectWhereId (id' u)) s) @
            [\<lparr>id' = k, email = email (userToTableRow u),
              passwordHash = passwordHash (userToTableRow u),
              created_at = now (sent (SelectWhereId (id' u)) s),
              updated_at = now (sent (SelectWhereId (id' u)) s)\<rparr>]\<rparr>)))"
    using assms(3,6) by (intro pgInsert_fits) simp_all
  with assms show ?thesis
    by (simp add: saveUser_pg_absent [OF assms(3,4)] users_sent now_sent violated_def)
qed

lemma saveUser_pg_cases:
  assumes "saveUser (pg sql) u s = (res, s1)"
  shows "(\<exists>e. res = Inl e \<and> users s1 = users s
            \<and> (e = Error ''Email already exists'' \<longrightarrow>
                 (\<exists>k. uuid_in (id' u) = Some k \<and> k \<notin> set (map id' (users s)))))
    \<or> (res = Inr () \<and> (\<exists>k v. uuid_in (id' u) = Some k \<and> kept (userToTableRow u) = Some v
          \<and> distinct (map id' (users s1)) \<and> distinct (map email (users s1))
          \<and> (\<exists>r\<in>set (users s1). id' r = k \<and> email r = email v \<and> passwordHash r = passwordHash v)
          \<and> (\<forall>r\<in>set (users s1). r \<in> set (users s)
                \<or> (id' r = k \<and> email r = email v \<and> passwordHash r = passwordHash v))))"
proof (cases "uuid_in (id' u)")
  case None
  with assms show ?thesis
    by (auto simp add: saveUser_pg_invalid users_sent invalidUuid_def invalidByte_def)
next
  case (Some k)
  show ?thesis
  proof (cases "k \<in> set (map id' (users s))")
    case True
    let ?s0 = "sent (SelectWhereId (id' u)) s"
    from assms have upd: "pgUpdateWhereId sql (id' u) (userToTableRow u) ?s0 = (res, s1)"
      by (simp add: saveUser_pg_present [OF Some True])
    from pgUpdateWhereId_cases [OF upd] show ?thesis
    proof
      assume "\<exists>c n m. res = Inl (DatabaseError c n m) \<and> users s1 = users ?s0"
      then show ?thesis by (auto simp add: users_sent)
    next
      assume "res = Inr () \<and> (\<exists>k k' v. uuid_in (id' u) = Some k
          \<and> uuid_in (id' (userToTableRow u)) = Some k' \<and> kept (userToTableRow u) = Some v
          \<and> violated (map (overwrite k k' v) (users ?s0)) = None
          \<and> users s1 = map (overwrite k k' v) (users ?s0))"
      with Some obtain v where res: "res = Inr ()" and v: "kept (userToTableRow u) = Some v"
        and viol: "violated (map (overwrite k k v) (users s)) = None"
        and s1: "users s1 = map (overwrite k k v) (users s)"
        by (auto simp add: users_sent)
      from find_id_present [OF True] obtain r0 where r0: "r0 \<in> set (users s)" "id' r0 = k"
        by blast
      then have "overwrite k k v r0 \<in> set (users s1)"
        by (simp add: s1)
      moreover from r0 have "id' (overwrite k k v r0) = k \<and> email (overwrite k k v r0) = email v
        \<and> passwordHash (overwrite k k v r0) = passwordHash v"
        by (simp add: overwrite_def)
      ultimately have ex: "\<exists>r\<in>set (users s1). id' r = k \<and> email r = email v
        \<and> passwordHash r = passwordHash v"
        by blast
      have all: "\<forall>r\<in>set (users s1). r \<in> set (users s)
                \<or> (id' r = k \<and> email r = email v \<and> passwordHash r = passwordHash v)"
        by (auto simp add: s1 overwrite_def)
      from viol s1 have "distinct (map id' (users s1)) \<and> distinct (map email (users s1))"
        by (simp add: violated_None del: map_map)
      with res Some v ex all show ?thesis by blast
    qed
  next
    case False
    let ?s0 = "sent (SelectWhereId (id' u)) s"
    obtain r0 s0' where ins: "pgInsert sql (userToTableRow u) ?s0 = (r0, s0')"
      by (cases "pgInsert sql (userToTableRow u) ?s0")
    from pgInsert_cases [OF ins] show ?thesis
    proof
      assume "\<exists>c n m. r0 = Inl (DatabaseError c n m) \<and> users s0' = users ?s0"
      with assms ins Some False show ?thesis
        by (auto simp add: saveUser_pg_absent [OF Some False] users_sent split: if_splits)
    next
      assume "r0 = Inr () \<and> (\<exists>k v. uuid_in (id' (userToTableRow u)) = Some k
          \<and> kept (userToTableRow u) = Some v
          \<and> violated (users ?s0 @ [\<lparr>id' = k, email = email v, passwordHash = passwordHash v,
                                   created_at = now ?s0, updated_at = now ?s0\<rparr>]) = None
          \<and> users s0' = users ?s0 @ [\<lparr>id' = k, email = email v, passwordHash = passwordHash v,
                                   created_at = now ?s0, updated_at = now ?s0\<rparr>])"
      with Some obtain v where r0: "r0 = Inr ()" and v: "kept (userToTableRow u) = Some v"
        and viol: "violated (users s @ [\<lparr>id' = k, email = email v, passwordHash = passwordHash v,
                                   created_at = now ?s0, updated_at = now ?s0\<rparr>]) = None"
        and s0': "users s0' = users s @ [\<lparr>id' = k, email = email v, passwordHash = passwordHash v,
                                   created_at = now ?s0, updated_at = now ?s0\<rparr>]"
        by (auto simp add: users_sent)
      from assms ins r0 have res: "res = Inr ()" and s1: "s1 = s0'"
        by (simp_all add: saveUser_pg_absent [OF Some False])
      from viol s0' s1 have d: "distinct (map id' (users s1)) \<and> distinct (map email (users s1))"
        by (simp add: violated_None)
      from s0' s1 have ex: "\<exists>r\<in>set (users s1). id' r = k \<and> email r = email v
        \<and> passwordHash r = passwordHash v"
        by simp
      from s0' s1 have all: "\<forall>r\<in>set (users s1). r \<in> set (users s)
                \<or> (id' r = k \<and> email r = email v \<and> passwordHash r = passwordHash v)"
        by auto
      from res Some v d ex all show ?thesis by blast
    qed
  qed
qed

lemma saveUser_pg_success:
  assumes "saveUser (pg sql) u s = (Inr (), s1)"
  shows "\<exists>k v. uuid_in (id' u) = Some k \<and> kept (userToTableRow u) = Some v
    \<and> distinct (map id' (users s1)) \<and> distinct (map email (users s1))
    \<and> (\<exists>r\<in>set (users s1). id' r = k \<and> email r = email v \<and> passwordHash r = passwordHash v)"
  using saveUser_pg_cases [OF assms] by auto

lemma saveUser_pg_rows:
  assumes "r \<in> set (users (snd (saveUser (pg sql) u s)))"
  shows "r \<in> set (users s)
    \<or> (uuid_in (id' u) = Some (id' r) \<and> varchar255 (email u) = Some (email r)
       \<and> varchar255 (passwordHash u) = Some (passwordHash r))"
proof -
  obtain res s1 where sv: "saveUser (pg sql) u s = (res, s1)"
    by (cases "saveUser (pg sql) u s")
  from saveUser_pg_cases [OF sv] show ?thesis
  proof
    assume "\<exists>e. res = Inl e \<and> users s1 = users s
            \<and> (e = Error ''Email already exists'' \<longrightarrow>
                 (\<exists>k. uuid_in (id' u) = Some k \<and> k \<notin> set (map id' (users s))))"
    with assms sv show ?thesis by auto
  next
    assume "res = Inr () \<and> (\<exists>k v. uuid_in (id' u) = Some k \<and> kept (userToTableRow u) = Some v
          \<and> distinct (map id' (users s1)) \<and> distinct (map email (users s1))
          \<and> (\<exists>r\<in>set (users s1). id' r = k \<and> email r = email v \<and> passwordHash r = passwordHash v)
          \<and> (\<forall>r\<in>set (users s1). r \<in> set (users s)
                \<or> (id' r = k \<and> email r = email v \<and> passwordHash r = passwordHash v)))"
    then obtain k v where k: "uuid_in (id' u) = Some k" and v: "kept (userToTableRow u) = Some v"
      and all: "\<forall>r\<in>set (users s1). r \<in> set (users s)
                \<or> (id' r = k \<and> email r = email v \<and> passwordHash r = passwordHash v)"
      by blast
    from kept_fields [OF v] have "varchar255 (email u) = Some (email v)"
      "varchar255 (passwordHash u) = Some (passwordHash v)"
      by simp_all
    with assms sv all k show ?thesis by auto
  qed
qed

section \<open>createUser on the table\<close>

lemma createUser_pg_after_save:
  assumes "hashPassword (password params) = Inr h"
    and "saveUser (pg sql) \<lparr>id' = randomUUID, email = CreateUserParams.email params, passwordHash = h\<rparr> s
      = (Inr (), s1)"
  shows "\<exists>k v. uuid_in randomUUID = Some k
    \<and> kept \<lparr>id' = randomUUID, email = CreateUserParams.email params, passwordHash = h\<rparr> = Some v
    \<and> createUser (pg sql) randomUUID hashPassword params s =
      (Inr \<lparr>id' = k, email = email v, passwordHash = passwordHash v\<rparr>,
       sent (SelectWhereId randomUUID) s1)"
proof -
  let ?u = "\<lparr>id' = randomUUID, email = CreateUserParams.email params, passwordHash = h\<rparr>"
  from saveUser_pg_success [OF assms(2)] obtain k v r where k: "uuid_in randomUUID = Some k"
    and v: "kept ?u = Some v"
    and d: "distinct (map id' (users s1))"
    and r: "r \<in> set (users s1)" "id' r = k" "email r = email v" "passwordHash r = passwordHash v"
    by (auto simp add: userToTableRow_def)
  from r(2-4) have t: "tableRowToUser r = \<lparr>id' = k, email = email v, passwordHash = passwordHash v\<rparr>"
    by (simp add: tableRowToUser_def)
  from find_distinct_key [OF d r(1)] r(2) k t
  have "findById (pg sql) randomUUID s1
    = (Inr (Some \<lparr>id' = k, email = email v, passwordHash = passwordHash v\<rparr>),
       sent (SelectWhereId randomUUID) s1)"
    by (simp add: findById_pg)
  with assms k v show ?thesis
    by (simp add: createUser_def)
qed

lemma createUser_pg_users:
  "users (snd (createUser (pg sql) randomUUID hashPassword params s)) =
     (case hashPassword (password params) of
        Inl err \<Rightarrow> users s
      | Inr h \<Rightarrow> users (snd (saveUser (pg sql)
          \<lparr>id' = randomUUID, email = CreateUserParams.email params, passwordHash = h\<rparr> s)))"
  by (simp add: createUser_def findById_pg users_sent Let_def
      split: sum.split prod.split option.split)

section \<open>Lookups\<close>

text \<open>
  C8, as the code has it: \<^verbatim>\<open>findByEmail\<close> resolves to null for an email that no row
  has, and \<^verbatim>\<open>findById\<close> resolves to null for an id that reads as a uuid and that no
  row has. For a key that the store does not take (an id that does not read as a uuid, a
  string with the character of code 0), the store rejects the select and the lookup,
  which catches nothing, rejects with the error of the store. For the id (in any
  spelling) or the email of a row of the table, the lookup resolves to that row's User.
\<close>

theorem find_absent_or_present:
  "(uuid_in i = Some k \<and> k \<notin> set (map id' (users s)) \<longrightarrow>
      findById (pg sql) i s = (Inr None, sent (SelectWhereId i) s))
   \<and> (uuid_in i = None \<longrightarrow>
      findById (pg sql) i s =
        (Inl (if text_ok i then invalidUuid (selectSql sql) i else invalidByte (selectSql sql)),
         sent (SelectWhereId i) s))
   \<and> (text_ok e \<and> e \<notin> set (map email (users s)) \<longrightarrow>
        findByEmail (pg sql) e s = (Inr None, sent (SelectWhereEmail e) s))
   \<and> (\<not> text_ok e \<longrightarrow>
        findByEmail (pg sql) e s = (Inl (invalidByte (selectEmailSql sql)), sent (SelectWhereEmail e) s))
   \<and> (consistent s \<and> r \<in> set (users s) \<longrightarrow>
        (uuid_in i = Some (id' r) \<longrightarrow> fst (findById (pg sql) i s) = Inr (Some (tableRowToUser r)))
        \<and> fst (findById (pg sql) (id' r) s) = Inr (Some (tableRowToUser r))
        \<and> fst (findByEmail (pg sql) (email r) s) = Inr (Some (tableRowToUser r)))"
proof (intro conjI impI)
  assume "uuid_in i = Some k \<and> k \<notin> set (map id' (users s))"
  then show "findById (pg sql) i s = (Inr None, sent (SelectWhereId i) s)"
    by (simp add: findById_pg find_key_absent)
next
  assume "uuid_in i = None"
  then show "findById (pg sql) i s =
        (Inl (if text_ok i then invalidUuid (selectSql sql) i else invalidByte (selectSql sql)),
         sent (SelectWhereId i) s)"
    by (simp add: findById_pg)
next
  assume "text_ok e \<and> e \<notin> set (map email (users s))"
  then show "findByEmail (pg sql) e s = (Inr None, sent (SelectWhereEmail e) s)"
    by (simp add: findByEmail_pg find_key_absent)
next
  assume "\<not> text_ok e"
  then show "findByEmail (pg sql) e s
      = (Inl (invalidByte (selectEmailSql sql)), sent (SelectWhereEmail e) s)"
    by (simp add: findByEmail_pg)
next
  assume a: "consistent s \<and> r \<in> set (users s)"
  then have d: "distinct (map id' (users s))" "distinct (map email (users s))"
    and r: "r \<in> set (users s)"
    by (simp_all add: consistent_def)
  from a consistent_typed [of s r] have t: "uuid_in (id' r) = Some (id' r)"
    and ok: "text_ok (email r)"
    by (simp_all add: typed_def fits_def storable_def)
  from find_distinct_key [OF d(1) r] t
  show "fst (findById (pg sql) (id' r) s) = Inr (Some (tableRowToUser r))"
    by (simp add: findById_pg)
  from find_distinct_key [OF d(2) r] ok
  show "fst (findByEmail (pg sql) (email r) s) = Inr (Some (tableRowToUser r))"
    by (simp add: findByEmail_pg)
  assume "uuid_in i = Some (id' r)"
  with find_distinct_key [OF d(1) r]
  show "fst (findById (pg sql) i s) = Inr (Some (tableRowToUser r))"
    by (simp add: findById_pg)
qed

theorem find_absent_or_present_witness:
  "uuid_in ''33333333-3333-4333-8333-333333333333'' = Some ''33333333-3333-4333-8333-333333333333''
   \<and> ''33333333-3333-4333-8333-333333333333'' \<notin> set (map id' (users twoUsers))
   \<and> uuid_in ''not-a-uuid'' = None \<and> text_ok ''not-a-uuid''
   \<and> text_ok ''c@x.com'' \<and> ''c@x.com'' \<notin> set (map email (users twoUsers))
   \<and> \<not> text_ok [CHR ''c'', CHR 0x00]
   \<and> consistent twoUsers \<and> bob \<in> set (users twoUsers)
   \<and> uuid_in ''{22222222-2222-4222-8222-222222222222}'' = Some (id' bob)
   \<and> fst (findById (pg rendered) ''33333333-3333-4333-8333-333333333333'' twoUsers) = Inr None
   \<and> fst (findById (pg rendered) ''not-a-uuid'' twoUsers)
       = Inl (invalidUuid (selectSql rendered) ''not-a-uuid'')
   \<and> fst (findByEmail (pg rendered) ''c@x.com'' twoUsers) = Inr None
   \<and> fst (findByEmail (pg rendered) [CHR ''c'', CHR 0x00] twoUsers)
       = Inl (invalidByte (selectEmailSql rendered))
   \<and> fst (findById (pg rendered) ''{22222222-2222-4222-8222-222222222222}'' twoUsers)
       = Inr (Some \<lparr>id' = ''22222222-2222-4222-8222-222222222222'', email = ''b@x.com'',
                    passwordHash = ''$argon2id$B''\<rparr>)
   \<and> fst (findById (pg rendered) ''22222222-2222-4222-8222-222222222222'' twoUsers)
       = Inr (Some \<lparr>id' = ''22222222-2222-4222-8222-222222222222'', email = ''b@x.com'',
                    passwordHash = ''$argon2id$B''\<rparr>)
   \<and> fst (findByEmail (pg rendered) ''b@x.com'' twoUsers)
       = Inr (Some \<lparr>id' = ''22222222-2222-4222-8222-222222222222'', email = ''b@x.com'',
                    passwordHash = ''$argon2id$B''\<rparr>)"
proof -
  let ?b = "\<lparr>id' = ''22222222-2222-4222-8222-222222222222'', email = ''b@x.com'',
                    passwordHash = ''$argon2id$B''\<rparr>"
  let ?z = "[CHR ''c'', CHR 0x00]"
  have a: "uuid_in ''33333333-3333-4333-8333-333333333333'' = Some ''33333333-3333-4333-8333-333333333333''
      \<and> ''33333333-3333-4333-8333-333333333333'' \<notin> set (map id' (users twoUsers))"
    by (simp add: uuid_examples twoUsers_def alice_def bob_def)
  have n: "uuid_in ''not-a-uuid'' = None" and n': "text_ok ''not-a-uuid''"
    by (simp_all add: uuid_examples text_ok_def)
  have b: "text_ok ''c@x.com'' \<and> ''c@x.com'' \<notin> set (map email (users twoUsers))"
    by (simp add: text_ok_def twoUsers_def alice_def bob_def)
  have z: "\<not> text_ok ?z"
    by (simp add: text_ok_def)
  have c: "consistent twoUsers \<and> bob \<in> set (users twoUsers)"
    by (simp add: consistent_twoUsers) (simp add: twoUsers_def)
  have s: "uuid_in ''{22222222-2222-4222-8222-222222222222}'' = Some (id' bob)"
    by (simp add: uuid_examples bob_def)
  have d: "id' bob = ''22222222-2222-4222-8222-222222222222''" "email bob = ''b@x.com''"
    "tableRowToUser bob = ?b"
    by (simp_all add: bob_def tableRowToUser_def)
  note t1 = find_absent_or_present [where i = "''33333333-3333-4333-8333-333333333333''"
      and k = "''33333333-3333-4333-8333-333333333333''" and s = twoUsers and sql = rendered
      and e = "''c@x.com''" and r = bob, THEN conjunct1, THEN mp, OF a]
  note t2 = find_absent_or_present [where i = "''not-a-uuid''" and s = twoUsers and sql = rendered
      and e = "''c@x.com''" and r = bob, THEN conjunct2, THEN conjunct1, THEN mp, OF n]
  note t3 = find_absent_or_present [where i = "''not-a-uuid''" and s = twoUsers and sql = rendered
      and e = "''c@x.com''" and r = bob, THEN conjunct2, THEN conjunct2, THEN conjunct1, THEN mp, OF b]
  note t4 = find_absent_or_present [where i = "''not-a-uuid''" and s = twoUsers and sql = rendered
      and e = ?z and r = bob, THEN conjunct2, THEN conjunct2, THEN conjunct2, THEN conjunct1,
      THEN mp, OF z]
  note t5 = find_absent_or_present [where i = "''{22222222-2222-4222-8222-222222222222}''"
      and s = twoUsers and sql = rendered and e = "''c@x.com''" and r = bob,
      THEN conjunct2, THEN conjunct2, THEN conjunct2, THEN conjunct2, THEN mp, OF c]
  from t1 have r1: "fst (findById (pg rendered) ''33333333-3333-4333-8333-333333333333'' twoUsers) = Inr None"
    by simp
  from t2 n' have r2: "fst (findById (pg rendered) ''not-a-uuid'' twoUsers)
       = Inl (invalidUuid (selectSql rendered) ''not-a-uuid'')"
    by simp
  from t3 have r3: "fst (findByEmail (pg rendered) ''c@x.com'' twoUsers) = Inr None"
    by simp
  from t4 have r3': "fst (findByEmail (pg rendered) ?z twoUsers)
       = Inl (invalidByte (selectEmailSql rendered))"
    by simp
  from t5 s d have r4: "fst (findById (pg rendered) ''{22222222-2222-4222-8222-222222222222}'' twoUsers)
       = Inr (Some ?b)"
    and r5: "fst (findById (pg rendered) ''22222222-2222-4222-8222-222222222222'' twoUsers)
       = Inr (Some ?b)"
    and r6: "fst (findByEmail (pg rendered) ''b@x.com'' twoUsers) = Inr (Some ?b)"
    by simp_all
  from a n n' b z c s r1 r2 r3 r3' r4 r5 r6 show ?thesis
    by (intro conjI) simp_all
qed

theorem find_absent_or_present_counterexample:
  \<open>''not-a-uuid'' \<notin> set (map id' (users twoUsers))
   \<and> fst (findById (pg rendered) ''not-a-uuid'' twoUsers)
       = Inl (DatabaseError ''22P02'' []
           ''select * from "users" where "id" = $1 limit $2 - invalid input syntax for type uuid: "not-a-uuid"'')
   \<and> fst (findById (pg rendered) ''not-a-uuid'' twoUsers) \<noteq> Inr None\<close>
  by (simp add: run_defs example_defs)

section \<open>Errors of createUser\<close>



text \<open>
  C6: after \<^verbatim>\<open>saveUser\<close> has succeeded, \<^verbatim>\<open>createUser\<close> reads the record back
  with \<^verbatim>\<open>findById\<close>. When the read-back resolves to null, \<^verbatim>\<open>createUser\<close>
  rejects with the error \<^verbatim>\<open>Failed to create user\<close>; when it resolves to a User,
  \<^verbatim>\<open>createUser\<close> returns exactly that User.
\<close>

theorem createUser_reads_back:
  "hashPassword (password params) = Inr h
   \<and> saveUser db \<lparr>id' = randomUUID, email = CreateUserParams.email params, passwordHash = h\<rparr> s
       = (Inr (), s1) \<longrightarrow>
     (findById db randomUUID s1 = (Inr None, s2) \<longrightarrow>
        createUser db randomUUID hashPassword params s = (Inl (Error ''Failed to create user''), s2))
     \<and> (findById db randomUUID s1 = (Inr (Some createdUser), s2) \<longrightarrow>
        createUser db randomUUID hashPassword params s = (Inr createdUser, s2))"
  by (simp add: createUser_def)

theorem createUser_reads_back_witness:
  "reversingHasher (password \<lparr>CreateUserParams.email = ''a @x.com'', password = ''Secret123''\<rparr>)
     = Inr ''$argon2id$321terceS''
   \<and> fst (saveUser forgetful
        \<lparr>id' = ''11111111-1111-4111-8111-111111111111'', email = ''a @x.com'',
          passwordHash = ''$argon2id$321terceS''\<rparr> emptyStore)
     = Inr ()
   \<and> fst (findById forgetful ''11111111-1111-4111-8111-111111111111'' (snd (saveUser forgetful
        \<lparr>id' = ''11111111-1111-4111-8111-111111111111'', email = ''a @x.com'',
          passwordHash = ''$argon2id$321terceS''\<rparr> emptyStore)))
     = Inr None
   \<and> fst (createUser forgetful ''11111111-1111-4111-8111-111111111111'' reversingHasher
        \<lparr>CreateUserParams.email = ''a @x.com'', password = ''Secret123''\<rparr> emptyStore)
     = Inl (Error ''Failed to create user'')
   \<and> fst (saveUser normalising
        \<lparr>id' = ''11111111-1111-4111-8111-111111111111'', email = ''a @x.com'',
          passwordHash = ''$argon2id$321terceS''\<rparr> emptyStore)
     = Inr ()
   \<and> fst (findById normalising ''11111111-1111-4111-8111-111111111111'' (snd (saveUser normalising
        \<lparr>id' = ''11111111-1111-4111-8111-111111111111'', email = ''a @x.com'',
          passwordHash = ''$argon2id$321terceS''\<rparr> emptyStore)))
     = Inr (Some \<lparr>id' = ''11111111-1111-4111-8111-111111111111'', email = ''a@x.com'',
                  passwordHash = ''$argon2id$321terceS''\<rparr>)
   \<and> fst (createUser normalising ''11111111-1111-4111-8111-111111111111'' reversingHasher
        \<lparr>CreateUserParams.email = ''a @x.com'', password = ''Secret123''\<rparr> emptyStore)
     = Inr \<lparr>id' = ''11111111-1111-4111-8111-111111111111'', email = ''a@x.com'',
            passwordHash = ''$argon2id$321terceS''\<rparr>"
proof -
  let ?p = "\<lparr>CreateUserParams.email = ''a @x.com'', password = ''Secret123''\<rparr>"
  let ?h = "''$argon2id$321terceS''"
  let ?i = "''11111111-1111-4111-8111-111111111111''"
  let ?u = "\<lparr>id' = ?i, email = CreateUserParams.email ?p, passwordHash = ?h\<rparr>"
  let ?v = "\<lparr>id' = ?i, email = ''a@x.com'', passwordHash = ?h\<rparr>"
  have h: "reversingHasher (password ?p) = Inr ?h"
    by (simp add: reversingHasher_def)
  have e: "CreateUserParams.email ?p = ''a @x.com''"
    by simp
  obtain f1 where f1: "saveUser forgetful ?u emptyStore = (Inr (), f1)"
    by (simp add: run_defs example_defs)
  obtain f2 where f2: "findById forgetful ?i f1 = (Inr None, f2)"
    using f1 by (auto simp add: run_defs example_defs)
  obtain n1 where n1: "saveUser normalising ?u emptyStore = (Inr (), n1)"
    by (simp add: run_defs example_defs)
  obtain n2 where n2: "findById normalising ?i n1 = (Inr (Some ?v), n2)"
    using n1 by (auto simp add: run_defs example_defs)
  note rf = createUser_reads_back [of reversingHasher ?p ?h forgetful ?i emptyStore f1 f2 ?v]
  note rn = createUser_reads_back [of reversingHasher ?p ?h normalising ?i emptyStore n1 n2 ?v]
  have cf: "createUser forgetful ?i reversingHasher ?p emptyStore
      = (Inl (Error ''Failed to create user''), f2)"
    by (rule rf [THEN mp, OF conjI, OF h f1, THEN conjunct1, THEN mp, OF f2])
  have cn: "createUser normalising ?i reversingHasher ?p emptyStore = (Inr ?v, n2)"
    by (rule rn [THEN mp, OF conjI, OF h n1, THEN conjunct2, THEN mp, OF n2])
  have "fst (saveUser forgetful ?u emptyStore) = Inr ()"
    "fst (findById forgetful ?i (snd (saveUser forgetful ?u emptyStore))) = Inr None"
    "fst (saveUser normalising ?u emptyStore) = Inr ()"
    "fst (findById normalising ?i (snd (saveUser normalising ?u emptyStore)))
       = Inr (Some ?v)"
    "fst (createUser forgetful ?i reversingHasher ?p emptyStore)
       = Inl (Error ''Failed to create user'')"
    "fst (createUser normalising ?i reversingHasher ?p emptyStore) = Inr ?v"
    by (simp_all only: f1 f2 n1 n2 cf cn fst_conv snd_conv)
  with h show ?thesis unfolding e by blast
qed

section \<open>The projection between Users and rows\<close>

text \<open>
  C10: \<^verbatim>\<open>tableRowToUser(userToTableRow(u))\<close> is \<open>u\<close> for every User \<open>u\<close>. Both
  functions keep the three fields of a User and drop every other property, so a User that
  \<^verbatim>\<open>findById\<close> or \<^verbatim>\<open>findByEmail\<close> returns is the row of the store cut down to
  \<^verbatim>\<open>id\<close>, \<^verbatim>\<open>email\<close> and \<^verbatim>\<open>passwordHash\<close> (no timestamps), and what
  \<^verbatim>\<open>saveUser\<close> sends to the store in an update or an insert is the given record cut
  down to these three fields.
\<close>

theorem projection_roundtrip:
  "tableRowToUser (userToTableRow (u::User)) = u
   \<and> userToTableRow r = User.truncate r
   \<and> tableRowToUser row = User.truncate row
   \<and> (fst (findById db i s) = Inr (Some x) \<longrightarrow>
        (\<exists>row. fst (firstWhereId db i s) = Inr (Some row) \<and> x = User.truncate row))
   \<and> (fst (findByEmail db e s) = Inr (Some y) \<longrightarrow>
        (\<exists>row. fst (firstWhereEmail db e s) = Inr (Some row) \<and> y = User.truncate row))
   \<and> queries (snd (saveUser (pg sql) user t))
       = queries t @
         (case uuid_in (id' user) of
            None \<Rightarrow> [SelectWhereId (id' user)]
          | Some k \<Rightarrow>
              [SelectWhereId (id' user),
               if k \<in> set (map id' (users t))
               then UpdateWhereId (id' user) (User.truncate user)
               else Insert (User.truncate user)])"
proof -
  note tr = userToTableRow_truncate tableRowToUser_truncate
  have a: "tableRowToUser (userToTableRow u) = u"
    by (simp add: userToTableRow_def tableRowToUser_def)
  have b: "fst (findById db i s) = Inr (Some x) \<longrightarrow>
        (\<exists>row. fst (firstWhereId db i s) = Inr (Some row) \<and> x = User.truncate row)"
    by (auto simp add: findById_def tr split: prod.splits sum.splits option.splits)
  have c: "fst (findByEmail db e s) = Inr (Some y) \<longrightarrow>
        (\<exists>row. fst (firstWhereEmail db e s) = Inr (Some row) \<and> y = User.truncate row)"
    by (auto simp add: findByEmail_def tr split: prod.splits sum.splits option.splits)
  have d: "queries (snd (saveUser (pg sql) user t))
       = queries t @
         (case uuid_in (id' user) of
            None \<Rightarrow> [SelectWhereId (id' user)]
          | Some k \<Rightarrow>
              [SelectWhereId (id' user),
               if k \<in> set (map id' (users t))
               then UpdateWhereId (id' user) (User.truncate user)
               else Insert (User.truncate user)])"
  proof (cases "uuid_in (id' user)")
    case None
    then show ?thesis
      by (simp add: saveUser_pg_invalid queries_sent)
  next
    case (Some k)
    show ?thesis
    proof (cases "k \<in> set (map id' (users t))")
      case True
      with Some show ?thesis
        by (simp add: saveUser_pg_present [OF Some True] pgUpdateWhereId_def queries_sent tr Let_def
            split: option.split)
    next
      case False
      with Some show ?thesis
        by (simp add: saveUser_pg_absent [OF Some False] pgInsert_def queries_sent tr Let_def
            split: option.split)
    qed
  qed
  from a b c d show ?thesis by (simp only: tr)
qed

theorem projection_roundtrip_witness:
  "tableRowToUser (userToTableRow \<lparr>id' = ''22222222-2222-4222-8222-222222222222'',
       email = ''b@x.com'', passwordHash = ''$argon2id$B''\<rparr>)
     = \<lparr>id' = ''22222222-2222-4222-8222-222222222222'', email = ''b@x.com'',
        passwordHash = ''$argon2id$B''\<rparr>
   \<and> userToTableRow bob = \<lparr>id' = ''22222222-2222-4222-8222-222222222222'', email = ''b@x.com'',
        passwordHash = ''$argon2id$B''\<rparr>
   \<and> tableRowToUser bob = \<lparr>id' = ''22222222-2222-4222-8222-222222222222'', email = ''b@x.com'',
        passwordHash = ''$argon2id$B''\<rparr>
   \<and> fst (findById (pg rendered) ''22222222-2222-4222-8222-222222222222'' twoUsers)
       = Inr (Some \<lparr>id' = ''22222222-2222-4222-8222-222222222222'', email = ''b@x.com'',
                    passwordHash = ''$argon2id$B''\<rparr>)
   \<and> fst (firstWhereId (pg rendered) ''22222222-2222-4222-8222-222222222222'' twoUsers)
       = Inr (Some bob)
   \<and> fst (findByEmail (pg rendered) ''a@x.com'' twoUsers)
       = Inr (Some \<lparr>id' = ''11111111-1111-4111-8111-111111111111'', email = ''a@x.com'',
                    passwordHash = ''$argon2id$A''\<rparr>)
   \<and> fst (firstWhereEmail (pg rendered) ''a@x.com'' twoUsers) = Inr (Some alice)
   \<and> queries (snd (saveUser (pg rendered) bob twoUsers))
       = [SelectWhereId ''22222222-2222-4222-8222-222222222222'',
          UpdateWhereId ''22222222-2222-4222-8222-222222222222''
            \<lparr>id' = ''22222222-2222-4222-8222-222222222222'', email = ''b@x.com'',
              passwordHash = ''$argon2id$B''\<rparr>]"
proof -
  let ?i = "''22222222-2222-4222-8222-222222222222''"
  let ?b = "\<lparr>id' = ?i, email = ''b@x.com'', passwordHash = ''$argon2id$B''\<rparr>"
  let ?a = "\<lparr>id' = ''11111111-1111-4111-8111-111111111111'', email = ''a@x.com'',
             passwordHash = ''$argon2id$A''\<rparr>"
  have tb: "User.truncate bob = ?b" and ta: "User.truncate alice = ?a"
    by (simp_all add: User.truncate_def bob_def alice_def)
  have f: "fst (findById (pg rendered) ?i twoUsers) = Inr (Some ?b)"
    "fst (firstWhereId (pg rendered) ?i twoUsers) = Inr (Some bob)"
    "fst (findByEmail (pg rendered) ''a@x.com'' twoUsers) = Inr (Some ?a)"
    "fst (firstWhereEmail (pg rendered) ''a@x.com'' twoUsers) = Inr (Some alice)"
    by (simp_all add: run_defs example_defs)
  have q: "queries twoUsers = []" "id' bob = ?i" "uuid_in (id' bob) = Some ?i"
    "?i \<in> set (map id' (users twoUsers))"
    by (simp_all add: twoUsers_def bob_def alice_def uuid_examples)
  from projection_roundtrip [of ?b bob bob "pg rendered" ?i twoUsers ?b
      "''a@x.com''" ?a rendered bob twoUsers] tb ta f q
  show ?thesis by simp
qed

section \<open>saveUser\<close>

text \<open>
  C9: the translation into \<^verbatim>\<open>Error('Email already exists')\<close> is made on the insert
  branch only. For a User whose id a row already has, \<^verbatim>\<open>saveUser\<close> ends as the update
  ends; when the update would give the row an email that a row with another id holds, the
  unique constraint on \<^verbatim>\<open>email\<close> rejects it and \<^verbatim>\<open>saveUser\<close> rejects with the
  error of the driver, unchanged, and not with \<^verbatim>\<open>Error('Email already exists')\<close>. (The
  update reaches the constraint when the store takes the password hash as it is; when
  it does not, the error is still one of the driver, and it is not translated either.)
\<close>

theorem saveUser_update_not_translated:
  \<open>(findById db (id' u) s = (Inr (Some existingUser), s1)
      \<longrightarrow> saveUser db u s = updateWhereId db (id' u) (userToTableRow u) s1)
   \<and> (consistent t \<and> r1 \<in> set (users t) \<and> id' r1 = id' u
        \<and> r2 \<in> set (users t) \<and> id' r2 \<noteq> id' u \<and> email r2 = email u
      \<longrightarrow> (storable (passwordHash u) \<longrightarrow>
             fst (saveUser (pg sql) u t) =
               Inl (DatabaseError ''23505'' ''users_email_unique''
                      (updateSql sql @ '' - duplicate key value violates unique constraint "users_email_unique"'')))
        \<and> fst (saveUser (pg sql) u t) \<noteq> Inl (Error ''Email already exists'')
        \<and> users (snd (saveUser (pg sql) u t)) = users t)\<close>
proof -
  have a: "findById db (id' u) s = (Inr (Some existingUser), s1)
      \<longrightarrow> saveUser db u s = updateWhereId db (id' u) (userToTableRow u) s1"
    by (simp add: saveUser_def split: prod.split sum.split)
  have b: \<open>consistent t \<and> r1 \<in> set (users t) \<and> id' r1 = id' u
        \<and> r2 \<in> set (users t) \<and> id' r2 \<noteq> id' u \<and> email r2 = email u
      \<longrightarrow> (storable (passwordHash u) \<longrightarrow>
             fst (saveUser (pg sql) u t) =
               Inl (DatabaseError ''23505'' ''users_email_unique''
                      (updateSql sql @ '' - duplicate key value violates unique constraint "users_email_unique"'')))
        \<and> fst (saveUser (pg sql) u t) \<noteq> Inl (Error ''Email already exists'')
        \<and> users (snd (saveUser (pg sql) u t)) = users t\<close>
  proof
    assume h: "consistent t \<and> r1 \<in> set (users t) \<and> id' r1 = id' u
        \<and> r2 \<in> set (users t) \<and> id' r2 \<noteq> id' u \<and> email r2 = email u"
    then have d: "distinct (map id' (users t))"
      by (simp add: consistent_def)
    from h consistent_typed [of t r1] have k: "uuid_in (id' u) = Some (id' u)"
      by (simp add: typed_def)
    from h have present: "id' u \<in> set (map id' (users t))"
      by force
    from h consistent_typed [of t r2] have e: "storable (email u)"
      by (simp add: typed_def fits_def)
    let ?t0 = "sent (SelectWhereId (id' u)) t"
    obtain res t1 where sv: "saveUser (pg sql) u t = (res, t1)"
      by (cases "saveUser (pg sql) u t")
    then have upd: "pgUpdateWhereId sql (id' u) (userToTableRow u) ?t0 = (res, t1)"
      by (simp add: saveUser_pg_present [OF k present])
    have raw: "(\<exists>c n m. res = Inl (DatabaseError c n m)) \<and> users t1 = users t"
      using pgUpdateWhereId_cases [OF upd]
    proof
      assume "\<exists>c n m. res = Inl (DatabaseError c n m) \<and> users t1 = users ?t0"
      then show ?thesis by (auto simp add: users_sent)
    next
      assume "res = Inr () \<and> (\<exists>k k' v. uuid_in (id' u) = Some k
          \<and> uuid_in (id' (userToTableRow u)) = Some k' \<and> kept (userToTableRow u) = Some v
          \<and> violated (map (overwrite k k' v) (users ?t0)) = None
          \<and> users t1 = map (overwrite k k' v) (users ?t0))"
      with k obtain v where v: "kept (userToTableRow u) = Some v"
        and viol: "violated (map (overwrite (id' u) (id' u) v) (users t)) = None"
        by (auto simp add: users_sent)
      from kept_fields [OF v] e have "email v = email u"
        by (simp add: varchar255_storable)
      with h have "\<not> distinct (map email (map (overwrite (id' u) (id' u) v) (users t)))"
        by (intro overwrite_emails_clash [of r1 _ _ r2]) simp_all
      with viol have False
        by (simp add: violated_None del: map_map)
      then show ?thesis ..
    qed
    have first: \<open>fst (saveUser (pg sql) u t) =
               Inl (DatabaseError ''23505'' ''users_email_unique''
                      (updateSql sql @ '' - duplicate key value violates unique constraint "users_email_unique"''))\<close>
      if "storable (passwordHash u)"
    proof -
      from e that have "fits u" by (simp add: fits_def)
      with h d k have "saveUser (pg sql) u t =
        (Inl (uniqueViolation (updateSql sql) ''users_email_unique''),
         sent (UpdateWhereId (id' u) (userToTableRow u)) (sent (SelectWhereId (id' u)) t))"
        by (intro saveUser_pg_update_clash [of t u "id' u" r1 r2]) simp_all
      then show ?thesis
        by (simp add: uniqueViolation_def)
    qed
    from raw sv first
    show \<open>(storable (passwordHash u) \<longrightarrow>
             fst (saveUser (pg sql) u t) =
               Inl (DatabaseError ''23505'' ''users_email_unique''
                      (updateSql sql @ '' - duplicate key value violates unique constraint "users_email_unique"'')))
        \<and> fst (saveUser (pg sql) u t) \<noteq> Inl (Error ''Email already exists'')
        \<and> users (snd (saveUser (pg sql) u t)) = users t\<close>
      by auto
  qed
  from a b show ?thesis by (rule conjI)
qed

theorem saveUser_update_not_translated_witness:
  \<open>findById (pg rendered) ''22222222-2222-4222-8222-222222222222'' twoUsers
     = (Inr (Some \<lparr>id' = ''22222222-2222-4222-8222-222222222222'', email = ''b@x.com'',
                   passwordHash = ''$argon2id$B''\<rparr>),
        sent (SelectWhereId ''22222222-2222-4222-8222-222222222222'') twoUsers)
   \<and> consistent twoUsers \<and> bob \<in> set (users twoUsers)
   \<and> id' bob = ''22222222-2222-4222-8222-222222222222''
   \<and> alice \<in> set (users twoUsers) \<and> id' alice \<noteq> ''22222222-2222-4222-8222-222222222222''
   \<and> email alice = ''a@x.com''
   \<and> saveUser (pg rendered)
        \<lparr>id' = ''22222222-2222-4222-8222-222222222222'', email = ''a@x.com'',
          passwordHash = ''$argon2id$N''\<rparr> twoUsers
     = updateWhereId (pg rendered) ''22222222-2222-4222-8222-222222222222''
        \<lparr>id' = ''22222222-2222-4222-8222-222222222222'', email = ''a@x.com'',
          passwordHash = ''$argon2id$N''\<rparr>
        (sent (SelectWhereId ''22222222-2222-4222-8222-222222222222'') twoUsers)
   \<and> fst (saveUser (pg rendered)
        \<lparr>id' = ''22222222-2222-4222-8222-222222222222'', email = ''a@x.com'',
          passwordHash = ''$argon2id$N''\<rparr> twoUsers)
     = Inl (DatabaseError ''23505'' ''users_email_unique''
         ''update "users" set "id" = $1, "email" = $2, "passwordHash" = $3 where "id" = $4 - duplicate key value violates unique constraint "users_email_unique"'')
   \<and> users (snd (saveUser (pg rendered)
        \<lparr>id' = ''22222222-2222-4222-8222-222222222222'', email = ''a@x.com'',
          passwordHash = ''$argon2id$N''\<rparr> twoUsers))
     = [alice, bob]\<close>
proof -
  let ?i = "''22222222-2222-4222-8222-222222222222''"
  let ?u = "\<lparr>id' = ?i, email = ''a@x.com'', passwordHash = ''$argon2id$N''\<rparr>"
  let ?b = "\<lparr>id' = ?i, email = ''b@x.com'', passwordHash = ''$argon2id$B''\<rparr>"
  have f: "findById (pg rendered) ?i twoUsers = (Inr (Some ?b), sent (SelectWhereId ?i) twoUsers)"
    by (simp add: findById_pg uuid_examples tableRowToUser_def twoUsers_def alice_def bob_def)
  have h: "consistent twoUsers" "bob \<in> set (users twoUsers)" "id' bob = ?i"
    "alice \<in> set (users twoUsers)" "id' alice \<noteq> ?i" "email alice = ''a@x.com''"
    "users twoUsers = [alice, bob]" "id' ?u = ?i" "email ?u = ''a@x.com''"
    "userToTableRow ?u = ?u" "storable (passwordHash ?u)"
    by (simp_all add: consistent_twoUsers)
      (simp_all add: twoUsers_def alice_def bob_def userToTableRow_def storable_def text_ok_def)
  have q: \<open>updateSql rendered
      = ''update "users" set "id" = $1, "email" = $2, "passwordHash" = $3 where "id" = $4''\<close>
    by (simp add: rendered_def)
  note t = saveUser_update_not_translated [of "pg rendered" ?u twoUsers ?b
      "sent (SelectWhereId ?i) twoUsers" twoUsers bob alice rendered]
  from t [THEN conjunct1] f h
  have c1: "saveUser (pg rendered) ?u twoUsers
      = updateWhereId (pg rendered) ?i ?u (sent (SelectWhereId ?i) twoUsers)"
    by simp
  from t [THEN conjunct2] h q
  have c2: \<open>fst (saveUser (pg rendered) ?u twoUsers)
      = Inl (DatabaseError ''23505'' ''users_email_unique''
         ''update "users" set "id" = $1, "email" = $2, "passwordHash" = $3 where "id" = $4 - duplicate key value violates unique constraint "users_email_unique"'')\<close>
    and c3: "users (snd (saveUser (pg rendered) ?u twoUsers)) = [alice, bob]"
    by simp_all
  from f h(1-6) c1 c2 c3 show ?thesis
    by (intro conjI)
qed

text \<open>
  C2, as the code has it: \<^verbatim>\<open>saveUser\<close> is an upsert keyed by id, as long as the store
  lets the write through. In a table that satisfies its constraints, for a User \<open>u\<close> whose
  id reads as a uuid and whose email and password hash the store takes as they are (at
  most 255 characters, none of them the character of code 0): when a row has
  that uuid as its id and no row with another id holds the email of \<open>u\<close>, \<^verbatim>\<open>saveUser\<close>
  succeeds and overwrites the email and the password hash of that row in place (the table
  keeps its length, exactly one row has the id, and a \<^verbatim>\<open>findById\<close> afterwards returns
  the fields of \<open>u\<close>, the id as the store prints it); when no row has that uuid as its id
  and no row holds the email of \<open>u\<close>, \<^verbatim>\<open>saveUser\<close> succeeds and appends one new row.
\<close>

theorem saveUser_upsert:
  "consistent s \<and> uuid_in (id' u) = Some k
     \<and> storable (email u) \<and> storable (passwordHash u) \<longrightarrow>
     (k \<in> set (map id' (users s))
        \<and> email u \<notin> set (map email (filter (\<lambda>r. id' r \<noteq> k) (users s)))
      \<longrightarrow> fst (saveUser (pg sql) u s) = Inr ()
        \<and> users (snd (saveUser (pg sql) u s)) =
            map (\<lambda>r. if id' r = k
                      then r\<lparr>email := email u, passwordHash := passwordHash u\<rparr> else r) (users s)
        \<and> length (users (snd (saveUser (pg sql) u s))) = length (users s)
        \<and> length (filter (\<lambda>r. id' r = k) (users (snd (saveUser (pg sql) u s)))) = 1
        \<and> fst (findById (pg sql) (id' u) (snd (saveUser (pg sql) u s)))
            = Inr (Some \<lparr>id' = k, email = email u, passwordHash = passwordHash u\<rparr>))
     \<and> (k \<notin> set (map id' (users s)) \<and> email u \<notin> set (map email (users s))
      \<longrightarrow> fst (saveUser (pg sql) u s) = Inr ()
        \<and> users (snd (saveUser (pg sql) u s)) =
            users s @ [\<lparr>id' = k, email = email u, passwordHash = passwordHash u,
                         created_at = Suc (now s), updated_at = Suc (now s)\<rparr>]
        \<and> length (filter (\<lambda>r. id' r = k) (users (snd (saveUser (pg sql) u s)))) = 1
        \<and> fst (findById (pg sql) (id' u) (snd (saveUser (pg sql) u s)))
            = Inr (Some \<lparr>id' = k, email = email u, passwordHash = passwordHash u\<rparr>))"
proof (intro impI conjI)
  assume a: "consistent s \<and> uuid_in (id' u) = Some k
     \<and> storable (email u) \<and> storable (passwordHash u)"
  then have d: "distinct (map id' (users s))" "distinct (map email (users s))"
    and k: "uuid_in (id' u) = Some k" and f: "fits u"
    by (simp_all add: consistent_def fits_def)
  {
    fix s1
    assume ok: "saveUser (pg sql) u s = (Inr (), s1)"
    from saveUser_pg_success [OF ok] k kept_fits [of "userToTableRow u"] f
    obtain r where d1: "distinct (map id' (users s1))"
      and r: "r \<in> set (users s1)" "id' r = k" "email r = email u" "passwordHash r = passwordHash u"
      by auto
    from r(2-4) have t: "tableRowToUser r = \<lparr>id' = k, email = email u, passwordHash = passwordHash u\<rparr>"
      by (simp add: tableRowToUser_def)
    from filter_distinct_key [OF d1 r(1)] find_distinct_key [OF d1 r(1)] r(2) t k
    have "length (filter (\<lambda>r. id' r = k) (users s1)) = 1
      \<and> fst (findById (pg sql) (id' u) s1)
          = Inr (Some \<lparr>id' = k, email = email u, passwordHash = passwordHash u\<rparr>)"
      by (simp add: findById_pg)
  } note after = this
  {
    assume h: "k \<in> set (map id' (users s))
        \<and> email u \<notin> set (map email (filter (\<lambda>r. id' r \<noteq> k) (users s)))"
    then have free: "\<forall>r\<in>set (users s). email r = email u \<longrightarrow> id' r = k"
      by force
    note ok = saveUser_pg_update_ok [OF d k conjunct1 [OF h] free f, of sql]
    from ok show "fst (saveUser (pg sql) u s) = Inr ()"
      by simp
    from ok show "users (snd (saveUser (pg sql) u s)) =
            map (\<lambda>r. if id' r = k
                      then r\<lparr>email := email u, passwordHash := passwordHash u\<rparr> else r) (users s)"
      by (simp add: users_sent overwrite_in_place)
    from ok show "length (users (snd (saveUser (pg sql) u s))) = length (users s)"
      by (simp add: users_sent)
    from after [OF ok] ok
    show "length (filter (\<lambda>r. id' r = k) (users (snd (saveUser (pg sql) u s)))) = 1"
      by simp
    from after [OF ok] ok
    show "fst (findById (pg sql) (id' u) (snd (saveUser (pg sql) u s)))
            = Inr (Some \<lparr>id' = k, email = email u, passwordHash = passwordHash u\<rparr>)"
      by simp
  }
  {
    assume h: "k \<notin> set (map id' (users s)) \<and> email u \<notin> set (map email (users s))"
    note ok = saveUser_pg_insert_ok [OF d k conjunct1 [OF h] conjunct2 [OF h] f, of sql]
    from ok show "fst (saveUser (pg sql) u s) = Inr ()"
      by simp
    from ok show "users (snd (saveUser (pg sql) u s)) =
            users s @ [\<lparr>id' = k, email = email u, passwordHash = passwordHash u,
                         created_at = Suc (now s), updated_at = Suc (now s)\<rparr>]"
      by (simp add: users_sent)
    from after [OF ok] ok
    show "length (filter (\<lambda>r. id' r = k) (users (snd (saveUser (pg sql) u s)))) = 1"
      by simp
    from after [OF ok] ok
    show "fst (findById (pg sql) (id' u) (snd (saveUser (pg sql) u s)))
            = Inr (Some \<lparr>id' = k, email = email u, passwordHash = passwordHash u\<rparr>)"
      by simp
  }
qed

theorem saveUser_upsert_witness:
  "consistent twoUsers
   \<and> uuid_in ''{22222222-2222-4222-8222-222222222222}'' = Some ''22222222-2222-4222-8222-222222222222''
   \<and> storable ''new@x.com'' \<and> storable ''$argon2id$N''
   \<and> storable ''c@x.com'' \<and> storable ''$argon2id$C''
   \<and> ''22222222-2222-4222-8222-222222222222'' \<in> set (map id' (users twoUsers))
   \<and> ''new@x.com'' \<notin> set (map email
        (filter (\<lambda>r. id' r \<noteq> ''22222222-2222-4222-8222-222222222222'') (users twoUsers)))
   \<and> fst (saveUser (pg rendered)
        \<lparr>id' = ''{22222222-2222-4222-8222-222222222222}'', email = ''new@x.com'',
          passwordHash = ''$argon2id$N''\<rparr> twoUsers) = Inr ()
   \<and> users (snd (saveUser (pg rendered)
        \<lparr>id' = ''{22222222-2222-4222-8222-222222222222}'', email = ''new@x.com'',
          passwordHash = ''$argon2id$N''\<rparr> twoUsers))
     = [alice, bob\<lparr>email := ''new@x.com'', passwordHash := ''$argon2id$N''\<rparr>]
   \<and> length (filter (\<lambda>r. id' r = ''22222222-2222-4222-8222-222222222222'')
        (users (snd (saveUser (pg rendered)
          \<lparr>id' = ''{22222222-2222-4222-8222-222222222222}'', email = ''new@x.com'',
            passwordHash = ''$argon2id$N''\<rparr> twoUsers)))) = 1
   \<and> fst (findById (pg rendered) ''{22222222-2222-4222-8222-222222222222}''
        (snd (saveUser (pg rendered)
          \<lparr>id' = ''{22222222-2222-4222-8222-222222222222}'', email = ''new@x.com'',
            passwordHash = ''$argon2id$N''\<rparr> twoUsers)))
     = Inr (Some \<lparr>id' = ''22222222-2222-4222-8222-222222222222'', email = ''new@x.com'',
                  passwordHash = ''$argon2id$N''\<rparr>)
   \<and> uuid_in ''33333333-3333-4333-8333-333333333333'' = Some ''33333333-3333-4333-8333-333333333333''
   \<and> ''33333333-3333-4333-8333-333333333333'' \<notin> set (map id' (users twoUsers))
   \<and> ''c@x.com'' \<notin> set (map email (users twoUsers))
   \<and> fst (saveUser (pg rendered)
        \<lparr>id' = ''33333333-3333-4333-8333-333333333333'', email = ''c@x.com'',
          passwordHash = ''$argon2id$C''\<rparr> twoUsers) = Inr ()
   \<and> users (snd (saveUser (pg rendered)
        \<lparr>id' = ''33333333-3333-4333-8333-333333333333'', email = ''c@x.com'',
          passwordHash = ''$argon2id$C''\<rparr> twoUsers))
     = [alice, bob,
        \<lparr>id' = ''33333333-3333-4333-8333-333333333333'', email = ''c@x.com'',
          passwordHash = ''$argon2id$C'', created_at = 8, updated_at = 8\<rparr>]"
proof -
  let ?j = "''{22222222-2222-4222-8222-222222222222}''"
  let ?k = "''22222222-2222-4222-8222-222222222222''"
  let ?l = "''33333333-3333-4333-8333-333333333333''"
  let ?u = "\<lparr>id' = ?j, email = ''new@x.com'', passwordHash = ''$argon2id$N''\<rparr>"
  let ?v = "\<lparr>id' = ?l, email = ''c@x.com'', passwordHash = ''$argon2id$C''\<rparr>"
  have cu: "consistent twoUsers \<and> uuid_in (id' ?u) = Some ?k
     \<and> storable (email ?u) \<and> storable (passwordHash ?u)"
    by (simp add: consistent_twoUsers uuid_examples storable_def text_ok_def)
  have cv: "consistent twoUsers \<and> uuid_in (id' ?v) = Some ?l
     \<and> storable (email ?v) \<and> storable (passwordHash ?v)"
    by (simp add: consistent_twoUsers uuid_examples storable_def text_ok_def)
  have hu: "?k \<in> set (map id' (users twoUsers))
      \<and> email ?u \<notin> set (map email (filter (\<lambda>r. id' r \<noteq> ?k) (users twoUsers)))"
    by (simp add: twoUsers_def alice_def bob_def)
  have hv: "?l \<notin> set (map id' (users twoUsers)) \<and> email ?v \<notin> set (map email (users twoUsers))"
    by (simp add: twoUsers_def alice_def bob_def)
  have e: "users twoUsers = [alice, bob]" "now twoUsers = 7" "id' alice \<noteq> ?k"
    "id' bob = ?k"
    by (simp_all add: twoUsers_def alice_def bob_def)
  note tu = saveUser_upsert [of twoUsers ?u ?k rendered, THEN mp, OF cu, THEN conjunct1,
      THEN mp, OF hu]
  note tv = saveUser_upsert [of twoUsers ?v ?l rendered, THEN mp, OF cv, THEN conjunct2,
      THEN mp, OF hv]
  from tu e have u1: "fst (saveUser (pg rendered) ?u twoUsers) = Inr ()"
    and u2: "users (snd (saveUser (pg rendered) ?u twoUsers))
      = [alice, bob\<lparr>email := ''new@x.com'', passwordHash := ''$argon2id$N''\<rparr>]"
    and u3: "length (filter (\<lambda>r. id' r = ?k)
        (users (snd (saveUser (pg rendered) ?u twoUsers)))) = 1"
    and u4: "fst (findById (pg rendered) ?j (snd (saveUser (pg rendered) ?u twoUsers)))
      = Inr (Some \<lparr>id' = ?k, email = ''new@x.com'', passwordHash = ''$argon2id$N''\<rparr>)"
    by simp_all
  from tv e have v1: "fst (saveUser (pg rendered) ?v twoUsers) = Inr ()"
    and v2: "users (snd (saveUser (pg rendered) ?v twoUsers))
      = [alice, bob,
         \<lparr>id' = ?l, email = ''c@x.com'', passwordHash = ''$argon2id$C'',
           created_at = 8, updated_at = 8\<rparr>]"
    by simp_all
  from cu cv hu hv have h: "consistent twoUsers" "uuid_in ?j = Some ?k"
    "storable ''new@x.com''" "storable ''$argon2id$N''" "storable ''c@x.com''"
    "storable ''$argon2id$C''"
    "?k \<in> set (map id' (users twoUsers))"
    "''new@x.com'' \<notin> set (map email (filter (\<lambda>r. id' r \<noteq> ?k) (users twoUsers)))"
    "uuid_in ?l = Some ?l"
    "?l \<notin> set (map id' (users twoUsers))"
    "''c@x.com'' \<notin> set (map email (users twoUsers))"
    by simp_all
  from h u1 u2 u3 u4 v1 v2 show ?thesis
    by (intro conjI)
qed

theorem saveUser_upsert_counterexample:
  \<open>consistent twoUsers
   \<and> ''22222222-2222-4222-8222-222222222222'' \<in> set (map id' (users twoUsers))
   \<and> fst (saveUser (pg rendered)
        \<lparr>id' = ''22222222-2222-4222-8222-222222222222'', email = ''a@x.com'',
          passwordHash = ''$argon2id$N''\<rparr> twoUsers)
     = Inl (DatabaseError ''23505'' ''users_email_unique''
         ''update "users" set "id" = $1, "email" = $2, "passwordHash" = $3 where "id" = $4 - duplicate key value violates unique constraint "users_email_unique"'')
   \<and> fst (findById (pg rendered) ''22222222-2222-4222-8222-222222222222''
        (snd (saveUser (pg rendered)
          \<lparr>id' = ''22222222-2222-4222-8222-222222222222'', email = ''a@x.com'',
            passwordHash = ''$argon2id$N''\<rparr> twoUsers)))
     = Inr (Some \<lparr>id' = ''22222222-2222-4222-8222-222222222222'', email = ''b@x.com'',
                  passwordHash = ''$argon2id$B''\<rparr>)
   \<and> ''33333333-3333-4333-8333-333333333333'' \<notin> set (map id' (users twoUsers))
   \<and> fst (saveUser (pg rendered)
        \<lparr>id' = ''33333333-3333-4333-8333-333333333333'', email = ''a@x.com'',
          passwordHash = ''$argon2id$N''\<rparr> twoUsers)
     \<noteq> Inr ()
   \<and> users (snd (saveUser (pg rendered)
        \<lparr>id' = ''33333333-3333-4333-8333-333333333333'', email = ''a@x.com'',
          passwordHash = ''$argon2id$N''\<rparr> twoUsers))
     = users twoUsers
   \<and> ''not-a-uuid'' \<notin> set (map id' (users twoUsers))
   \<and> ''c@x.com'' \<notin> set (map email (users twoUsers))
   \<and> fst (saveUser (pg rendered)
        \<lparr>id' = ''not-a-uuid'', email = ''c@x.com'', passwordHash = ''$argon2id$N''\<rparr> twoUsers)
     = Inl (DatabaseError ''22P02'' []
         ''select * from "users" where "id" = $1 limit $2 - invalid input syntax for type uuid: "not-a-uuid"'')
   \<and> users (snd (saveUser (pg rendered)
        \<lparr>id' = ''not-a-uuid'', email = ''c@x.com'', passwordHash = ''$argon2id$N''\<rparr> twoUsers))
     = users twoUsers\<close>
  by (simp add: consistent_twoUsers) (simp add: run_defs example_defs)

text \<open>
  C1 asks that an insert which breaks the unique constraint on \<^verbatim>\<open>email\<close> makes
  \<^verbatim>\<open>saveUser\<close> fail with \<^verbatim>\<open>Error('Email already exists')\<close>. The catch branch of
  \<^verbatim>\<open>saveUser\<close> attempts this, by looking for a literal in the message of the driver;
  the literal is the message of an insert of five columns, and \<^verbatim>\<open>userToTableRow\<close>
  gives the insert three. Evaluated on the table with two users, for a new id and the email
  of the first user: the store rejects the insert for \<^verbatim>\<open>users_email_unique\<close>, the
  message does not include the literal, and \<^verbatim>\<open>saveUser\<close> rethrows the error of the
  driver.
\<close>

theorem saveUser_duplicate_email_rethrown:
  \<open>consistent twoUsers
   \<and> uuid_in ''33333333-3333-4333-8333-333333333333'' = Some ''33333333-3333-4333-8333-333333333333''
   \<and> ''33333333-3333-4333-8333-333333333333'' \<notin> set (map id' (users twoUsers))
   \<and> ''a@x.com'' \<in> set (map email (users twoUsers))
   \<and> fst (findById (pg rendered) ''33333333-3333-4333-8333-333333333333'' twoUsers) = Inr None
   \<and> fst (insertRow (pg rendered)
        \<lparr>id' = ''33333333-3333-4333-8333-333333333333'', email = ''a@x.com'',
          passwordHash = ''$argon2id$C''\<rparr>
        (snd (findById (pg rendered) ''33333333-3333-4333-8333-333333333333'' twoUsers)))
     = Inl (DatabaseError ''23505'' ''users_email_unique''
         ''insert into "users" ("email", "id", "passwordHash") values ($1, $2, $3) - duplicate key value violates unique constraint "users_email_unique"'')
   \<and> \<not> includesString
         ''insert into "users" ("email", "id", "passwordHash") values ($1, $2, $3) - duplicate key value violates unique constraint "users_email_unique"''
         duplicateEmailMessage
   \<and> fst (saveUser (pg rendered)
        \<lparr>id' = ''33333333-3333-4333-8333-333333333333'', email = ''a@x.com'',
          passwordHash = ''$argon2id$C''\<rparr> twoUsers)
     = Inl (DatabaseError ''23505'' ''users_email_unique''
         ''insert into "users" ("email", "id", "passwordHash") values ($1, $2, $3) - duplicate key value violates unique constraint "users_email_unique"'')
   \<and> fst (saveUser (pg rendered)
        \<lparr>id' = ''33333333-3333-4333-8333-333333333333'', email = ''a@x.com'',
          passwordHash = ''$argon2id$C''\<rparr> twoUsers)
     \<noteq> Inl (Error ''Email already exists'')
   \<and> users (snd (saveUser (pg rendered)
        \<lparr>id' = ''33333333-3333-4333-8333-333333333333'', email = ''a@x.com'',
          passwordHash = ''$argon2id$C''\<rparr> twoUsers))
     = users twoUsers\<close>
  by (simp add: consistent_twoUsers) (simp add: run_defs example_defs)

section \<open>Creating a user\<close>

text \<open>
  C3, as the code has it: when no row of the table holds the email of the parameters, the
  email and the hash are strings that the store takes as they are (at most 255 characters,
  none of them the character of code 0), the identifier drawn reads as a uuid, and hashing
  the password gives a hash that neither is nor contains the
  password, \<^verbatim>\<open>createUser\<close> succeeds and returns a User with the email of the parameters
  whose \<^verbatim>\<open>passwordHash\<close> neither is nor contains the plaintext password (it is the hash,
  and the id is the identifier drawn, as the store prints it).
\<close>

theorem createUser_new_email:
  "consistent s \<and> CreateUserParams.email params \<notin> set (map email (users s))
     \<and> storable (CreateUserParams.email params)
     \<and> hashPassword (password params) = Inr h \<and> storable h
     \<and> h \<noteq> password params \<and> \<not> includesString h (password params)
     \<and> uuid_in randomUUID = Some k
   \<longrightarrow> (\<exists>u s'. createUser (pg sql) randomUUID hashPassword params s = (Inr u, s')
          \<and> email u = CreateUserParams.email params
          \<and> passwordHash u \<noteq> password params
          \<and> \<not> includesString (passwordHash u) (password params)
          \<and> passwordHash u = h \<and> id' u = k)"
proof
  let ?u = "\<lparr>id' = randomUUID, email = CreateUserParams.email params, passwordHash = h\<rparr>"
  assume a: "consistent s \<and> CreateUserParams.email params \<notin> set (map email (users s))
     \<and> storable (CreateUserParams.email params)
     \<and> hashPassword (password params) = Inr h \<and> storable h
     \<and> h \<noteq> password params \<and> \<not> includesString h (password params)
     \<and> uuid_in randomUUID = Some k"
  then have d: "distinct (map id' (users s))" "distinct (map email (users s))"
    and free: "email ?u \<notin> set (map email (users s))"
    and hp: "hashPassword (password params) = Inr h"
    and k: "uuid_in (id' ?u) = Some k" and f: "fits ?u"
    by (simp_all add: consistent_def fits_def)
  have "\<exists>s1. saveUser (pg sql) ?u s = (Inr (), s1)"
  proof (cases "k \<in> set (map id' (users s))")
    case True
    from free have "\<forall>r\<in>set (users s). email r = email ?u \<longrightarrow> id' r = k"
      by force
    from saveUser_pg_update_ok [OF d k True this f] show ?thesis by blast
  next
    case False
    from saveUser_pg_insert_ok [OF d k False free f] show ?thesis by blast
  qed
  then obtain s1 where "saveUser (pg sql) ?u s = (Inr (), s1)" ..
  from createUser_pg_after_save [where hashPassword = hashPassword and params = params, OF hp this]
    a kept_fits [OF f]
  show "\<exists>u s'. createUser (pg sql) randomUUID hashPassword params s = (Inr u, s')
          \<and> email u = CreateUserParams.email params
          \<and> passwordHash u \<noteq> password params
          \<and> \<not> includesString (passwordHash u) (password params)
          \<and> passwordHash u = h \<and> id' u = k"
    by auto
qed

theorem createUser_new_email_witness:
  "consistent twoUsers \<and> ''c@x.com'' \<notin> set (map email (users twoUsers))
   \<and> storable ''c@x.com''
   \<and> reversingHasher ''Secret123'' = Inr ''$argon2id$321terceS''
   \<and> storable ''$argon2id$321terceS''
   \<and> ''$argon2id$321terceS'' \<noteq> ''Secret123''
   \<and> \<not> includesString ''$argon2id$321terceS'' ''Secret123''
   \<and> uuid_in ''33333333-3333-4333-8333-333333333333'' = Some ''33333333-3333-4333-8333-333333333333''
   \<and> (\<exists>s'. createUser (pg rendered) ''33333333-3333-4333-8333-333333333333'' reversingHasher
          \<lparr>CreateUserParams.email = ''c@x.com'', password = ''Secret123''\<rparr> twoUsers
        = (Inr \<lparr>id' = ''33333333-3333-4333-8333-333333333333'', email = ''c@x.com'',
                passwordHash = ''$argon2id$321terceS''\<rparr>, s'))"
proof -
  let ?p = "\<lparr>CreateUserParams.email = ''c@x.com'', password = ''Secret123''\<rparr>"
  let ?h = "''$argon2id$321terceS''"
  let ?i = "''33333333-3333-4333-8333-333333333333''"
  have h: "consistent twoUsers \<and> CreateUserParams.email ?p \<notin> set (map email (users twoUsers))
     \<and> storable (CreateUserParams.email ?p)
     \<and> reversingHasher (password ?p) = Inr ?h \<and> storable ?h
     \<and> ?h \<noteq> password ?p \<and> \<not> includesString ?h (password ?p)
     \<and> uuid_in ?i = Some ?i"
    by (simp add: consistent_twoUsers uuid_examples)
      (simp add: twoUsers_def alice_def bob_def reversingHasher_def storable_def text_ok_def)
  from createUser_new_email [of twoUsers ?p reversingHasher ?h ?i ?i rendered, THEN mp, OF h]
  obtain u s' where r: "createUser (pg rendered) ?i reversingHasher ?p twoUsers = (Inr u, s')"
    "email u = ''c@x.com''" "passwordHash u = ?h" "id' u = ?i"
    by auto
  from r(2-4) have "u = \<lparr>id' = ?i, email = ''c@x.com'', passwordHash = ?h\<rparr>"
    by simp
  with r(1) have "\<exists>s'. createUser (pg rendered) ?i reversingHasher ?p twoUsers
        = (Inr \<lparr>id' = ?i, email = ''c@x.com'', passwordHash = ?h\<rparr>, s')"
    by blast
  with h show ?thesis by simp
qed

theorem createUser_new_email_counterexample:
  \<open>replicate 256 (CHR ''a'') \<notin> set (map email (users emptyStore))
   \<and> length (replicate 256 (CHR ''a'')) = 256
   \<and> text_ok (replicate 256 (CHR ''a''))
   \<and> reversingHasher ''Secret123'' = Inr ''$argon2id$321terceS''
   \<and> \<not> includesString ''$argon2id$321terceS'' ''Secret123''
   \<and> uuid_in ''11111111-1111-4111-8111-111111111111'' = Some ''11111111-1111-4111-8111-111111111111''
   \<and> fst (createUser (pg rendered) ''11111111-1111-4111-8111-111111111111'' reversingHasher
        \<lparr>CreateUserParams.email = replicate 256 (CHR ''a''), password = ''Secret123''\<rparr> emptyStore)
     = Inl (DatabaseError ''22001'' []
         ''insert into "users" ("email", "id", "passwordHash") values ($1, $2, $3) - value too long for type character varying(255)'')
   \<and> users (snd (createUser (pg rendered) ''11111111-1111-4111-8111-111111111111'' reversingHasher
        \<lparr>CreateUserParams.email = replicate 256 (CHR ''a''), password = ''Secret123''\<rparr> emptyStore))
     = []\<close>
  by (simp add: run_defs example_defs)

text \<open>
  C4: the password reaches the store only through the hasher. The outcome of
  \<^verbatim>\<open>createUser\<close>, for every handle, depends on the password only through the result
  of \<^verbatim>\<open>hashPassword\<close>; every row of the table after \<^verbatim>\<open>createUser\<close> is a row that
  was there before or carries, as its \<^verbatim>\<open>passwordHash\<close>, the hash that
  \<^verbatim>\<open>hashPassword\<close> returned for the submitted password (with the email of the
  parameters and the identifier drawn as its other fields, each as its column keeps it).
  \<^verbatim>\<open>saveUser\<close> writes the \<^verbatim>\<open>passwordHash\<close> of the User it is given and nothing
  else, and the two lookups write nothing.
\<close>

theorem passwordHash_from_hasher:
  "(hashPassword (password params) = hashPassword' (password params')
      \<and> CreateUserParams.email params = CreateUserParams.email params'
     \<longrightarrow> createUser db randomUUID hashPassword params s
         = createUser db randomUUID hashPassword' params' s)
   \<and> (r \<in> set (users (snd (createUser (pg sql) randomUUID hashPassword params t)))
     \<longrightarrow> r \<in> set (users t)
         \<or> (\<exists>h. hashPassword (password params) = Inr h
              \<and> varchar255 h = Some (passwordHash r)
              \<and> varchar255 (CreateUserParams.email params) = Some (email r)
              \<and> uuid_in randomUUID = Some (id' r)))
   \<and> (r \<in> set (users (snd (saveUser (pg sql) u t)))
     \<longrightarrow> r \<in> set (users t)
         \<or> (varchar255 (passwordHash u) = Some (passwordHash r)
            \<and> varchar255 (email u) = Some (email r) \<and> uuid_in (id' u) = Some (id' r)))
   \<and> users (snd (findById (pg sql) i t)) = users t
   \<and> users (snd (findByEmail (pg sql) e t)) = users t"
proof -
  have a: "hashPassword (password params) = hashPassword' (password params')
      \<and> CreateUserParams.email params = CreateUserParams.email params'
     \<longrightarrow> createUser db randomUUID hashPassword params s
         = createUser db randomUUID hashPassword' params' s"
    by (clarsimp simp add: createUser_def split: sum.split)
  have c: "r \<in> set (users (snd (saveUser (pg sql) u t)))
     \<longrightarrow> r \<in> set (users t)
         \<or> (varchar255 (passwordHash u) = Some (passwordHash r)
            \<and> varchar255 (email u) = Some (email r) \<and> uuid_in (id' u) = Some (id' r))"
    for u :: "'z User_scheme"
  proof
    assume "r \<in> set (users (snd (saveUser (pg sql) u t)))"
    from saveUser_pg_rows [OF this]
    show "r \<in> set (users t)
         \<or> (varchar255 (passwordHash u) = Some (passwordHash r)
            \<and> varchar255 (email u) = Some (email r) \<and> uuid_in (id' u) = Some (id' r))"
      by auto
  qed
  have b: "r \<in> set (users (snd (createUser (pg sql) randomUUID hashPassword params t)))
     \<longrightarrow> r \<in> set (users t)
         \<or> (\<exists>h. hashPassword (password params) = Inr h
              \<and> varchar255 h = Some (passwordHash r)
              \<and> varchar255 (CreateUserParams.email params) = Some (email r)
              \<and> uuid_in randomUUID = Some (id' r))"
  proof (cases "hashPassword (password params)")
    case (Inl err)
    then show ?thesis by (simp add: createUser_pg_users)
  next
    case (Inr h)
    from c [of "\<lparr>id' = randomUUID, email = CreateUserParams.email params, passwordHash = h\<rparr>"] Inr
    show ?thesis by (auto simp add: createUser_pg_users)
  qed
  have d: "users (snd (findById (pg sql) i t)) = users t"
    "users (snd (findByEmail (pg sql) e t)) = users t"
    by (simp_all add: findById_pg findByEmail_pg users_sent)
  from a b c d show ?thesis by (intro conjI)
qed

theorem passwordHash_from_hasher_witness:
  "reversingHasher (password \<lparr>CreateUserParams.email = ''c@x.com'', password = ''Secret123''\<rparr>)
     = (\<lambda>p. Inr ''$argon2id$321terceS'')
         (password \<lparr>CreateUserParams.email = ''c@x.com'', password = ''Other456''\<rparr>)
   \<and> createUser (pg rendered) ''33333333-3333-4333-8333-333333333333'' reversingHasher
        \<lparr>CreateUserParams.email = ''c@x.com'', password = ''Secret123''\<rparr> twoUsers
     = createUser (pg rendered) ''33333333-3333-4333-8333-333333333333''
        (\<lambda>p. Inr ''$argon2id$321terceS'')
        \<lparr>CreateUserParams.email = ''c@x.com'', password = ''Other456''\<rparr> twoUsers
   \<and> users (snd (createUser (pg rendered) ''33333333-3333-4333-8333-333333333333'' reversingHasher
        \<lparr>CreateUserParams.email = ''c@x.com'', password = ''Secret123''\<rparr> twoUsers))
     = [alice, bob,
        \<lparr>id' = ''33333333-3333-4333-8333-333333333333'', email = ''c@x.com'',
          passwordHash = ''$argon2id$321terceS'', created_at = 8, updated_at = 8\<rparr>]
   \<and> reversingHasher ''Secret123''
     = Inr (passwordHash \<lparr>id' = ''33333333-3333-4333-8333-333333333333'', email = ''c@x.com'',
          passwordHash = ''$argon2id$321terceS'', created_at = 8, updated_at = 8\<rparr>)
   \<and> users (snd (saveUser (pg rendered)
        \<lparr>id' = ''22222222-2222-4222-8222-222222222222'', email = ''b@x.com'',
          passwordHash = ''$argon2id$N''\<rparr> twoUsers))
     = [alice, bob\<lparr>passwordHash := ''$argon2id$N''\<rparr>]"
proof -
  let ?i = "''33333333-3333-4333-8333-333333333333''"
  let ?p = "\<lparr>CreateUserParams.email = ''c@x.com'', password = ''Secret123''\<rparr>"
  let ?q = "\<lparr>CreateUserParams.email = ''c@x.com'', password = ''Other456''\<rparr>"
  let ?new = "\<lparr>id' = ?i, email = ''c@x.com'', passwordHash = ''$argon2id$321terceS'',
          created_at = 8, updated_at = 8\<rparr>"
  let ?u = "\<lparr>id' = ''22222222-2222-4222-8222-222222222222'', email = ''b@x.com'',
          passwordHash = ''$argon2id$N''\<rparr>"
  let ?const = "\<lambda>p::string. (Inr ''$argon2id$321terceS'' :: error + string)"
  note t = passwordHash_from_hasher [of reversingHasher ?p ?const ?q "pg rendered" ?i
      twoUsers ?new rendered twoUsers ?u ?i "''c@x.com''"]
  have h: "reversingHasher (password ?p) = ?const (password ?q)
      \<and> CreateUserParams.email ?p = CreateUserParams.email ?q"
    by (simp add: reversingHasher_def)
  have same: "createUser (pg rendered) ?i reversingHasher ?p twoUsers
      = createUser (pg rendered) ?i ?const ?q twoUsers"
    by (rule t [THEN conjunct1, THEN mp, OF h])
  have rows: "users (snd (createUser (pg rendered) ?i reversingHasher ?p twoUsers))
      = [alice, bob, ?new]"
    by (simp add: run_defs example_defs)
  then have "?new \<in> set (users (snd (createUser (pg rendered) ?i reversingHasher ?p twoUsers)))"
    by simp
  from t [THEN conjunct2, THEN conjunct1, THEN mp, OF this]
  have hashed: "reversingHasher ''Secret123'' = Inr (passwordHash ?new)"
    by (simp add: twoUsers_def alice_def bob_def reversingHasher_def)
  have saved: "users (snd (saveUser (pg rendered) ?u twoUsers))
      = [alice, bob\<lparr>passwordHash := ''$argon2id$N''\<rparr>]"
    by (simp add: run_defs example_defs)
  from h [THEN conjunct1] same rows hashed saved show ?thesis
    by (intro conjI)
qed

text \<open>
  C5 asks that a second \<^verbatim>\<open>createUser\<close> for an email that is already registered fails
  with \<^verbatim>\<open>Error('Email already exists')\<close>. Evaluated on the empty table: the first call
  succeeds; the second, with a new identifier and the same email, is rejected by the
  store for \<^verbatim>\<open>users_email_unique\<close>, and \<^verbatim>\<open>createUser\<close> rejects with the error of the
  driver, which \<^verbatim>\<open>saveUser\<close> rethrows because the message of the three-column insert
  does not include its literal. The table keeps exactly the row of the first user.
\<close>

theorem createUser_twice_rethrown:
  \<open>fst (createUser (pg rendered) ''11111111-1111-4111-8111-111111111111'' reversingHasher
        \<lparr>CreateUserParams.email = ''a@x.com'', password = ''Secret123''\<rparr> emptyStore)
     = Inr \<lparr>id' = ''11111111-1111-4111-8111-111111111111'', email = ''a@x.com'',
            passwordHash = ''$argon2id$321terceS''\<rparr>
   \<and> fst (createUser (pg rendered) ''22222222-2222-4222-8222-222222222222'' reversingHasher
        \<lparr>CreateUserParams.email = ''a@x.com'', password = ''Other456''\<rparr>
        (snd (createUser (pg rendered) ''11111111-1111-4111-8111-111111111111'' reversingHasher
          \<lparr>CreateUserParams.email = ''a@x.com'', password = ''Secret123''\<rparr> emptyStore)))
     = Inl (DatabaseError ''23505'' ''users_email_unique''
         ''insert into "users" ("email", "id", "passwordHash") values ($1, $2, $3) - duplicate key value violates unique constraint "users_email_unique"'')
   \<and> fst (createUser (pg rendered) ''22222222-2222-4222-8222-222222222222'' reversingHasher
        \<lparr>CreateUserParams.email = ''a@x.com'', password = ''Other456''\<rparr>
        (snd (createUser (pg rendered) ''11111111-1111-4111-8111-111111111111'' reversingHasher
          \<lparr>CreateUserParams.email = ''a@x.com'', password = ''Secret123''\<rparr> emptyStore)))
     \<noteq> Inl (Error ''Email already exists'')
   \<and> users (snd (createUser (pg rendered) ''22222222-2222-4222-8222-222222222222'' reversingHasher
        \<lparr>CreateUserParams.email = ''a@x.com'', password = ''Other456''\<rparr>
        (snd (createUser (pg rendered) ''11111111-1111-4111-8111-111111111111'' reversingHasher
          \<lparr>CreateUserParams.email = ''a@x.com'', password = ''Secret123''\<rparr> emptyStore))))
     = [\<lparr>id' = ''11111111-1111-4111-8111-111111111111'', email = ''a@x.com'',
         passwordHash = ''$argon2id$321terceS'', created_at = 1, updated_at = 1\<rparr>]\<close>
  by (simp add: run_defs example_defs)

end
